theory Spec2Isabelle
  imports Main "HOL-Library.Word" "HOL-Library.Signed_Division"
begin

unbundle bit_operations_syntax

section \<open>Machine types and constants\<close>

text \<open>
  The architecture file of the repository (the one with \<open>switch_to_task\<close>) is the
  RISC-V 64 one (\<open>sstatus\<close>, \<open>sepc\<close>, \<open>a0\<close>), so \<open>ulong\<close> is a 64-bit word,
  \<open>NBITS\<close> is 64 and \<open>get_first_set_bit_index_l\<close> is \<open>get_first_set_bit_index64\<close>.
  A C \<open>int\<close> is modelled as a HOL \<open>int\<close>; where the C operation is undefined outside
  the 32-bit range (the shift \<open>1 << index\<close>) the model stops with an error instead.
\<close>

type_synonym ulong = "64 word"

definition NBITS :: nat where
  "NBITS = 64"

text \<open>\<open>sizeof(ulong)\<close>, in bytes.\<close>

definition sizeof_ulong :: nat where
  "sizeof_ulong = NBITS div 8"

text \<open>
  Build constants whose defining headers are not under \<open>src/\<close>. They are parameters of
  the model: \<open>K_SIGACTION_MASK_WORDS\<close> (the number of words of every signal bitmask),
  \<open>_NSIG\<close> and \<open>sizeof(struct k_sigaction)\<close>.
\<close>

record config =
  K_SIGACTION_MASK_WORDS :: nat
  NSIG :: int
  sizeof_k_sigaction :: nat

text \<open>The errno values, the dispositions and the \<open>how\<close> modes of the Linux ABI.\<close>

definition ESRCH :: int where "ESRCH = 3"
definition EFAULT :: int where "EFAULT = 14"
definition EINVAL :: int where "EINVAL = 22"

definition SIG_DFL :: ulong where "SIG_DFL = 0"
definition SIG_IGN :: ulong where "SIG_IGN = 1"

definition SIG_BLOCK :: int where "SIG_BLOCK = 0"
definition SIG_UNBLOCK :: int where "SIG_UNBLOCK = 1"
definition SIG_SETMASK :: int where "SIG_SETMASK = 2"

definition SA_NOCLDSTOP :: ulong where "SA_NOCLDSTOP = 0x00000001"
definition SA_NOCLDWAIT :: ulong where "SA_NOCLDWAIT = 0x00000002"
definition SA_SIGINFO :: ulong where "SA_SIGINFO = 0x00000004"
definition SA_ONSTACK :: ulong where "SA_ONSTACK = 0x08000000"
definition SA_RESTART :: ulong where "SA_RESTART = 0x10000000"
definition SA_NODEFER :: ulong where "SA_NODEFER = 0x40000000"
definition SA_RESETHAND :: ulong where "SA_RESETHAND = 0x80000000"

text \<open>The signal numbers of the Linux ABI (the generic table, which RISC-V uses).\<close>

definition SIGHUP :: int where "SIGHUP = 1"
definition SIGINT :: int where "SIGINT = 2"
definition SIGQUIT :: int where "SIGQUIT = 3"
definition SIGILL :: int where "SIGILL = 4"
definition SIGTRAP :: int where "SIGTRAP = 5"
definition SIGABRT :: int where "SIGABRT = 6"
definition SIGBUS :: int where "SIGBUS = 7"
definition SIGFPE :: int where "SIGFPE = 8"
definition SIGKILL :: int where "SIGKILL = 9"
definition SIGUSR1 :: int where "SIGUSR1 = 10"
definition SIGSEGV :: int where "SIGSEGV = 11"
definition SIGUSR2 :: int where "SIGUSR2 = 12"
definition SIGPIPE :: int where "SIGPIPE = 13"
definition SIGALRM :: int where "SIGALRM = 14"
definition SIGTERM :: int where "SIGTERM = 15"
definition SIGCHLD :: int where "SIGCHLD = 17"
definition SIGCONT :: int where "SIGCONT = 18"
definition SIGSTOP :: int where "SIGSTOP = 19"
definition SIGTSTP :: int where "SIGTSTP = 20"
definition SIGTTIN :: int where "SIGTTIN = 21"
definition SIGTTOU :: int where "SIGTTOU = 22"
definition SIGURG :: int where "SIGURG = 23"
definition SIGXCPU :: int where "SIGXCPU = 24"
definition SIGXFSZ :: int where "SIGXFSZ = 25"
definition SIGVTALRM :: int where "SIGVTALRM = 26"
definition SIGPROF :: int where "SIGPROF = 27"
definition SIGPOLL :: int where "SIGPOLL = 29"
definition SIGSYS :: int where "SIGSYS = 31"

text \<open>The RISC-V \<open>sstatus\<close> bits that \<open>switch_to_task\<close> tests.\<close>

definition SR_SPP :: ulong where "SR_SPP = 0x00000100"
definition SR_FS :: ulong where "SR_FS = 0x00006000"

text \<open>
  \<open>IN_RANGE(x, a, b)\<close> is the half-open test \<open>a <= x < b\<close> (its macro is in
  \<open>basic_defs.h\<close>, not under \<open>src/\<close>; the table \<open>signal_default_actions[_NSIG]\<close>
  indexed by \<open>signum\<close> after \<open>ASSERT(IN_RANGE(signum, 0, _NSIG))\<close> fixes the reading).
\<close>

definition IN_RANGE :: "int \<Rightarrow> int \<Rightarrow> int \<Rightarrow> bool" where
  "IN_RANGE x a b = (a \<le> x \<and> x < b)"

section \<open>Ways a kernel path ends without returning\<close>

text \<open>
  Every function returns \<open>stop + result\<close>. \<open>Assert_failed\<close> is a failed \<open>ASSERT\<close>
  (a panic in the debug build), \<open>Panic\<close> a call of \<open>panic\<close> with its message,
  \<open>Process_terminated\<close> a call of \<open>terminate_process(code, signum)\<close>, which never
  returns, \<open>Undefined_shift\<close> a C shift whose result is not defined,
  \<open>Out_of_bounds\<close> an array access outside the array and \<open>Null_task\<close> the
  dereference of a task pointer that is \<open>NULL\<close>.
\<close>

datatype stop =
    Assert_failed
  | Panic string
  | Process_terminated int int
  | Undefined_shift
  | Out_of_bounds
  | Null_task

text \<open>
  \<open>1 << index\<close> on C \<open>int\<close>: defined when the result fits, that is for
  \<open>0 <= index < 31\<close>.
\<close>

definition shl1 :: "int \<Rightarrow> stop + int" where
  "shl1 index =
     (if 0 \<le> index \<and> index < 31 then Inr (2 ^ nat index) else Inl Undefined_shift)"

text \<open>Reading and writing one word of a bitmask array, with the bounds checked.\<close>

definition word_at :: "ulong list \<Rightarrow> nat \<Rightarrow> stop + ulong" where
  "word_at xs i = (if i < length xs then Inr (xs ! i) else Inl Out_of_bounds)"

definition set_word_at :: "ulong list \<Rightarrow> nat \<Rightarrow> ulong \<Rightarrow> stop + ulong list" where
  "set_word_at xs i w = (if i < length xs then Inr (xs[i := w]) else Inl Out_of_bounds)"

section \<open>Tasks, processes and the kernel state\<close>

datatype task_state =
    TASK_STATE_RUNNABLE
  | TASK_STATE_RUNNING
  | TASK_STATE_SLEEPING
  | TASK_STATE_ZOMBIE

text \<open>
  The kind of the wait object a sleeping task waits on. The source names two
  enumerators, \<open>WOBJ_KMUTEX\<close> and \<open>WOBJ_SEM\<close>; every other kind (a condition, a
  timed sleep, ...) is \<open>WOBJ_other\<close> with its number.
\<close>

datatype wo_type = WOBJ_KMUTEX | WOBJ_SEM | WOBJ_other nat

text \<open>
  \<open>struct task\<close>, with the fields the modelled functions touch. \<open>pi\<close> is the pointer
  to the task's process, an index into the store of processes. \<open>sstatus\<close> is
  \<open>state_regs->sstatus\<close> and \<open>fpu_regs\<close> says whether the architecture field
  \<open>fpu_regs\<close> is a non-null pointer. The thread id is not a field: a task is stored
  under its thread id.
\<close>

record task =
  pi :: nat
  state :: task_state
  pending_signums :: "ulong list"
  vfork_stopped :: bool
  stopped :: bool
  wobj_type :: wo_type
  wstatus :: int
  timeslice :: nat
  running_in_kernel :: bool
  timer_ready :: bool
  sstatus :: ulong
  fpu_regs :: bool

text \<open>
  \<open>struct process\<close>: \<open>sa_handlers\<close> is indexed by \<open>signum - 1\<close>, \<open>sa_mask\<close> is the
  blocked-signal mask, an array of \<open>K_SIGACTION_MASK_WORDS\<close> words.
\<close>

record process =
  pid :: int
  sa_handlers :: "nat \<Rightarrow> ulong"
  sa_mask :: "ulong list"
  pdir :: nat

text \<open>
  Calls of functions that are not under \<open>src/\<close> and act outside the modelled state
  are recorded, in call order, in a log.
\<close>

datatype wait_event = task_stopped | task_continued

datatype sig_flag = SIG_FL_PROCESS | SIG_FL_FAULT

datatype event =
    Printk_ignoring_signal int
  | Trace_signal_delivered int int
  | Wake_up_tasks_waiting_on int wait_event
  | Kernel_yield_preempt_disabled
  | Send_signal int int "sig_flag set"
  | Save_current_fpu_regs
  | Restore_fpu_regs int
  | Disable_interrupts_forced
  | Pop_nested_interrupts
  | Task_info_reset_kernel_stack int
  | Adjust_nested_interrupts int
  | Context_switch int

text \<open>
  The kernel state. \<open>tasks\<close> is the table that \<open>get_task(tid)\<close> searches (a task
  pointer is the thread id it is stored under, \<open>NULL\<close> is \<open>None\<close>), \<open>procs\<close> the
  store of processes, \<open>curr\<close> the current task, \<open>kernel_process_pi\<close> the process of
  the kernel threads, \<open>disable_preemption_count\<close> the counter of the preemption gate
  and \<open>curr_pdir\<close> the active page directory.
\<close>

record kstate =
  tasks :: "int \<rightharpoonup> task"
  procs :: "nat \<Rightarrow> process"
  curr :: "int option"
  kernel_process_pi :: nat
  disable_preemption_count :: nat
  curr_pdir :: nat
  klog :: "event list"

text \<open>
  Modelled from the spec: \<open>get_task\<close> is not under \<open>src/\<close>. It resolves a task by
  its thread id, and gives \<open>NULL\<close> when no task has it.
\<close>

definition get_task :: "kstate \<Rightarrow> int \<Rightarrow> task option" where
  "get_task s tid = tasks s tid"

text \<open>
  Modelled from the spec: \<open>is_kernel_thread\<close> is not under \<open>src/\<close>. A kernel-only
  thread is a thread with no owning user process: its process is the kernel's own
  (\<open>kthread_create2\<close> allocates the thread under \<open>kernel_process->pi\<close> and then
  asserts \<open>is_kernel_thread(ti)\<close>).
\<close>

definition is_kernel_thread :: "kstate \<Rightarrow> task \<Rightarrow> bool" where
  "is_kernel_thread s t = (pi t = kernel_process_pi s)"

text \<open>
  Modelled from the spec: the preemption gate is a counted disable/enable gate; its
  functions are not under \<open>src/\<close>. No modelled path calls \<open>enable_preemption\<close> with
  the counter at 0.
\<close>

definition is_preemption_enabled :: "kstate \<Rightarrow> bool" where
  "is_preemption_enabled s = (disable_preemption_count s = 0)"

definition disable_preemption :: "kstate \<Rightarrow> kstate" where
  "disable_preemption s = s\<lparr>disable_preemption_count := disable_preemption_count s + 1\<rparr>"

definition enable_preemption :: "kstate \<Rightarrow> kstate" where
  "enable_preemption s = s\<lparr>disable_preemption_count := disable_preemption_count s - 1\<rparr>"

definition log_event :: "event \<Rightarrow> kstate \<Rightarrow> kstate" where
  "log_event e s = s\<lparr>klog := klog s @ [e]\<rparr>"

definition put_task :: "int \<Rightarrow> task \<Rightarrow> kstate \<Rightarrow> kstate" where
  "put_task ti t s = s\<lparr>tasks := (tasks s)(ti \<mapsto> t)\<rparr>"

text \<open>
  Modelled from the spec: \<open>task_change_state\<close> and \<open>task_change_state_idempotent\<close>
  are not under \<open>src/\<close>. The first sets the state field; the second does so only when
  the state differs from the new one.
\<close>

definition task_change_state :: "task \<Rightarrow> task_state \<Rightarrow> task" where
  "task_change_state t st = t\<lparr>state := st\<rparr>"

definition task_change_state_idempotent :: "task \<Rightarrow> task_state \<Rightarrow> task" where
  "task_change_state_idempotent t st = (if state t \<noteq> st then task_change_state t st else t)"

section \<open>The pending-signal bitmask\<close>

text \<open>
  After \<open>ASSERT(signum > 0)\<close> and \<open>signum--\<close> the operands of \<open>/\<close> and \<open>%\<close> are
  non-negative; C's truncating division is \<open>sdiv\<close> and \<open>smod\<close>. The \<open>int\<close>
  \<open>1 << index\<close> is converted to \<open>ulong\<close> by \<open>word_of_int\<close> (sign extension).
\<close>

definition add_pending_sig :: "config \<Rightarrow> task \<Rightarrow> int \<Rightarrow> stop + task" where
  "add_pending_sig cfg ti signum =
     (if \<not> signum > 0 then Inl Assert_failed
      else
        let signum' = signum - 1;
            slot = signum' sdiv int NBITS;
            index = signum' smod int NBITS
        in if slot \<ge> int (K_SIGACTION_MASK_WORDS cfg) then Inr ti
           else
             (case shl1 index of
                Inl e \<Rightarrow> Inl e
              | Inr b \<Rightarrow>
                  (case word_at (pending_signums ti) (nat slot) of
                     Inl e \<Rightarrow> Inl e
                   | Inr w \<Rightarrow>
                       (case set_word_at (pending_signums ti) (nat slot) (w OR word_of_int b) of
                          Inl e \<Rightarrow> Inl e
                        | Inr ws \<Rightarrow> Inr (ti\<lparr>pending_signums := ws\<rparr>)))))"

definition del_pending_sig :: "config \<Rightarrow> task \<Rightarrow> int \<Rightarrow> stop + task" where
  "del_pending_sig cfg ti signum =
     (if \<not> signum > 0 then Inl Assert_failed
      else
        let signum' = signum - 1;
            slot = signum' sdiv int NBITS;
            index = signum' smod int NBITS
        in if slot \<ge> int (K_SIGACTION_MASK_WORDS cfg) then Inr ti
           else
             (case shl1 index of
                Inl e \<Rightarrow> Inl e
              | Inr b \<Rightarrow>
                  (case word_at (pending_signums ti) (nat slot) of
                     Inl e \<Rightarrow> Inl e
                   | Inr w \<Rightarrow>
                       (case set_word_at (pending_signums ti) (nat slot)
                               (w AND word_of_int (NOT b)) of
                          Inl e \<Rightarrow> Inl e
                        | Inr ws \<Rightarrow> Inr (ti\<lparr>pending_signums := ws\<rparr>)))))"

definition is_pending_sig :: "config \<Rightarrow> task \<Rightarrow> int \<Rightarrow> stop + bool" where
  "is_pending_sig cfg ti signum =
     (if \<not> signum > 0 then Inl Assert_failed
      else
        let signum' = signum - 1;
            slot = signum' sdiv int NBITS;
            index = signum' smod int NBITS
        in if slot \<ge> int (K_SIGACTION_MASK_WORDS cfg) then Inr False
           else
             (case shl1 index of
                Inl e \<Rightarrow> Inl e
              | Inr b \<Rightarrow>
                  (case word_at (pending_signums ti) (nat slot) of
                     Inl e \<Rightarrow> Inl e
                   | Inr w \<Rightarrow> Inr (w AND word_of_int b \<noteq> 0))))"

text \<open>
  \<open>get_first_set_bit_index64\<close>: the loop \<open>for (i = 0; i < 64; i++)\<close> that breaks at
  the first \<open>i\<close> with \<open>num & (1ull << i)\<close>, after \<open>ASSERT(num != 0)\<close>.
\<close>

function get_first_set_bit_index64_loop :: "ulong \<Rightarrow> nat \<Rightarrow> nat" where
  "get_first_set_bit_index64_loop num i =
     (if i < 64
      then (if num AND push_bit i 1 \<noteq> 0 then i
            else get_first_set_bit_index64_loop num (i + 1))
      else i)"
  by pat_completeness auto
termination
  by (relation "measure (\<lambda>(num, i). 64 - i)") auto

declare get_first_set_bit_index64_loop.simps [simp del]

definition get_first_set_bit_index64 :: "ulong \<Rightarrow> stop + nat" where
  "get_first_set_bit_index64 num =
     (if num = 0 then Inl Assert_failed else Inr (get_first_set_bit_index64_loop num 0))"

text \<open>
  \<open>get_first_pending_sig\<close>: the loop over the words of the bitmask. The signal number
  is computed in \<open>u32\<close> and converted to \<open>int\<close>.
\<close>

function get_first_pending_sig_loop :: "config \<Rightarrow> task \<Rightarrow> nat \<Rightarrow> stop + int" where
  "get_first_pending_sig_loop cfg ti i =
     (if i < K_SIGACTION_MASK_WORDS cfg
      then
        (case word_at (pending_signums ti) i of
           Inl e \<Rightarrow> Inl e
         | Inr val \<Rightarrow>
             if val \<noteq> 0
             then
               (case get_first_set_bit_index64 val of
                  Inl e \<Rightarrow> Inl e
                | Inr idx \<Rightarrow> Inr (sint (word_of_nat (i * NBITS + idx + 1) :: 32 word)))
             else get_first_pending_sig_loop cfg ti (i + 1))
      else Inr (- 1))"
  by pat_completeness auto
termination
  by (relation "measure (\<lambda>(cfg, ti, i). K_SIGACTION_MASK_WORDS cfg - i)") auto

declare get_first_pending_sig_loop.simps [simp del]

definition get_first_pending_sig :: "config \<Rightarrow> task \<Rightarrow> stop + int" where
  "get_first_pending_sig cfg ti = get_first_pending_sig_loop cfg ti 0"

text \<open>
  The signal whose bit is bit \<open>(n - 1) mod NBITS\<close> of word \<open>(n - 1) div NBITS\<close> of
  the bitmask is pending: the reading of the bitmask that the claims about
  \<open>get_first_pending_sig\<close> and \<open>add_pending_sig\<close> are stated in.
\<close>

definition sig_bit :: "config \<Rightarrow> task \<Rightarrow> nat \<Rightarrow> bool" where
  "sig_bit cfg ti n =
     (0 < n \<and> (n - 1) div NBITS < K_SIGACTION_MASK_WORDS cfg \<and>
      (n - 1) div NBITS < length (pending_signums ti) \<and>
      bit (pending_signums ti ! ((n - 1) div NBITS)) ((n - 1) mod NBITS))"

section \<open>The signal actions\<close>

text \<open>\<open>STOPCODE\<close> and \<open>CONTINUED\<close>, the wait-status encodings of the Linux ABI.\<close>

definition STOPCODE :: "int \<Rightarrow> int" where
  "STOPCODE signum = push_bit 8 signum OR 0x7f"

definition CONTINUED :: int where
  "CONTINUED = 0xffff"

type_synonym action_type = "config \<Rightarrow> int \<Rightarrow> int \<Rightarrow> kstate \<Rightarrow> stop + kstate"

definition action_terminate :: action_type where
  "action_terminate cfg ti signum s =
     (case tasks s ti of
        None \<Rightarrow> Inl Null_task
      | Some t \<Rightarrow>
          if is_preemption_enabled s then Inl Assert_failed
          else if is_kernel_thread s t then Inl Assert_failed
          else if curr s = Some ti
          then
            (let s1 = enable_preemption s
             in if \<not> is_preemption_enabled s1 then Inl Assert_failed
                else Inl (Process_terminated 0 signum))
          else
            (case add_pending_sig cfg t signum of
               Inl e \<Rightarrow> Inl e
             | Inr t1 \<Rightarrow>
                 if \<not> vfork_stopped t1
                 then
                   (let t2 =
                          (if state t1 = TASK_STATE_SLEEPING
                           then (if wobj_type t1 \<noteq> WOBJ_KMUTEX \<and> wobj_type t1 \<noteq> WOBJ_SEM
                                 then task_change_state t1 TASK_STATE_RUNNABLE
                                 else t1)
                           else t1)
                    in Inr (put_task ti (t2\<lparr>stopped := False\<rparr>) s))
                 else Inr (put_task ti t1 s)))"

definition action_ignore :: action_type where
  "action_ignore cfg ti signum s =
     (if ti = 1 then Inr (log_event (Printk_ignoring_signal signum) s) else Inr s)"

definition action_stop :: action_type where
  "action_stop cfg ti signum s =
     (case tasks s ti of
        None \<Rightarrow> Inl Null_task
      | Some t \<Rightarrow>
          if is_kernel_thread s t then Inl Assert_failed
          else
            (let s1 = log_event (Trace_signal_delivered ti signum) s;
                 s2 = put_task ti (t\<lparr>stopped := True, wstatus := STOPCODE signum\<rparr>) s1;
                 s3 = log_event (Wake_up_tasks_waiting_on ti task_stopped) s2
             in if curr s3 = Some ti
                then Inr (log_event Kernel_yield_preempt_disabled s3)
                else Inr s3))"

definition action_continue :: action_type where
  "action_continue cfg ti signum s =
     (case tasks s ti of
        None \<Rightarrow> Inl Null_task
      | Some t \<Rightarrow>
          if is_kernel_thread s t then Inl Assert_failed
          else if vfork_stopped t then Inr s
          else
            (let s1 = log_event (Trace_signal_delivered ti signum) s;
                 s2 = put_task ti (t\<lparr>stopped := False, wstatus := CONTINUED\<rparr>) s1
             in Inr (log_event (Wake_up_tasks_waiting_on ti task_continued) s2)))"

text \<open>
  The table \<open>signal_default_actions\<close>: an entry the initialiser does not name is
  \<open>NULL\<close>, here \<open>None\<close>.
\<close>

definition signal_default_actions :: "int \<Rightarrow> action_type option" where
  "signal_default_actions =
     map_of
       [(SIGHUP, action_terminate), (SIGINT, action_terminate), (SIGQUIT, action_terminate),
        (SIGILL, action_terminate), (SIGABRT, action_terminate), (SIGFPE, action_terminate),
        (SIGKILL, action_terminate), (SIGSEGV, action_terminate), (SIGPIPE, action_terminate),
        (SIGALRM, action_terminate), (SIGTERM, action_terminate), (SIGUSR1, action_terminate),
        (SIGUSR2, action_terminate),
        (SIGCHLD, action_ignore), (SIGCONT, action_continue), (SIGSTOP, action_stop),
        (SIGTSTP, action_stop), (SIGTTIN, action_stop), (SIGTTOU, action_stop),
        (SIGBUS, action_terminate), (SIGPOLL, action_terminate), (SIGPROF, action_terminate),
        (SIGSYS, action_terminate), (SIGTRAP, action_terminate),
        (SIGURG, action_ignore),
        (SIGVTALRM, action_terminate), (SIGXCPU, action_terminate), (SIGXFSZ, action_terminate)]"

definition do_send_signal :: "config \<Rightarrow> int \<Rightarrow> int \<Rightarrow> kstate \<Rightarrow> stop + kstate" where
  "do_send_signal cfg ti signum s =
     (if \<not> IN_RANGE signum 0 (NSIG cfg) then Inl Assert_failed
      else if signum = 0 then Inr s
      else
        (case tasks s ti of
           None \<Rightarrow> Inl Null_task
         | Some t \<Rightarrow>
             let h = sa_handlers (procs s (pi t)) (nat (signum - 1))
             in if h = SIG_IGN then action_ignore cfg ti signum s
                else if h \<noteq> SIG_DFL then Inr s
                else
                  (let action_func =
                         (case signal_default_actions signum of
                            Some a \<Rightarrow> Some a
                          | None \<Rightarrow> Some action_terminate)
                   in case action_func of
                        None \<Rightarrow> Inr s
                      | Some a \<Rightarrow> a cfg ti signum s)))"

text \<open>
  \<open>send_signal2\<close> returns \<open>rc\<close> and the state; \<open>goto end\<close> and \<open>goto err_end\<close> are
  the two ways out, both through \<open>enable_preemption\<close>.
\<close>

definition send_signal2 ::
  "config \<Rightarrow> int \<Rightarrow> int \<Rightarrow> int \<Rightarrow> bool \<Rightarrow> kstate \<Rightarrow> stop + (int \<times> kstate)" where
  "send_signal2 cfg pid' tid signum whole_process s =
     (let s1 = disable_preemption s
      in case get_task s1 tid of
           None \<Rightarrow> Inr (- ESRCH, enable_preemption s1)
         | Some ti \<Rightarrow>
             if is_kernel_thread s1 ti then Inr (- ESRCH, enable_preemption s1)
             else if whole_process \<and> pid (procs s1 (pi ti)) \<noteq> tid
             then Inr (- ESRCH, enable_preemption s1)
             else if pid (procs s1 (pi ti)) \<noteq> pid' then Inr (- ESRCH, enable_preemption s1)
             else if signum = 0 then Inr (0, enable_preemption s1)
             else if state ti = TASK_STATE_ZOMBIE then Inr (0, enable_preemption s1)
             else
               (case do_send_signal cfg tid signum s1 of
                  Inl e \<Rightarrow> Inl e
                | Inr s2 \<Rightarrow> Inr (0, enable_preemption s2)))"

text \<open>
  \<open>process_signals\<close> of \<open>signal.c\<close>: with a pending signal it ends in
  \<open>terminate_process\<close>, otherwise it returns \<open>false\<close>.
\<close>

definition process_signals :: "config \<Rightarrow> kstate \<Rightarrow> stop + (bool \<times> kstate)" where
  "process_signals cfg s =
     (if is_preemption_enabled s then Inl Assert_failed
      else
        (case curr s of
           None \<Rightarrow> Inl Null_task
         | Some c \<Rightarrow>
             (case tasks s c of
                None \<Rightarrow> Inl Null_task
              | Some t \<Rightarrow>
                  (case get_first_pending_sig cfg t of
                     Inl e \<Rightarrow> Inl e
                   | Inr sig \<Rightarrow>
                       if sig > 0 then Inl (Process_terminated 0 sig)
                       else Inr (False, s)))))"

section \<open>The signal system calls\<close>

text \<open>
  \<open>struct k_sigaction\<close>, with the fields the source reads and writes (its mask is
  \<open>act_sa_mask\<close> here, \<open>sa_mask\<close> being the field of the process).
\<close>

record k_sigaction =
  handler :: ulong
  sa_flags :: ulong
  act_sa_mask :: "ulong list"

text \<open>
  The user-copy primitives \<open>copy_from_user\<close> and \<open>copy_to_user\<close> are not under
  \<open>src/\<close>: they are parameters of the model, over a user memory of any type \<open>'m\<close>.
  A read gives the value read, or \<open>None\<close> for a non-zero return (a fault); a write
  takes the destination address, the kernel buffer and the number of bytes and gives
  the return code and the user memory it leaves.
\<close>

datatype kernel_buf =
    Buf_sa_mask "ulong list"
  | Buf_zero_page
  | Buf_sigaction k_sigaction

record 'm user_access =
  copy_from_user_sigaction :: "'m \<Rightarrow> nat \<Rightarrow> k_sigaction option"
  copy_from_user_ulong :: "'m \<Rightarrow> nat \<Rightarrow> ulong option"
  copy_to_user :: "'m \<Rightarrow> nat \<Rightarrow> kernel_buf \<Rightarrow> nat \<Rightarrow> int \<times> 'm"

text \<open>\<open>get_curr_proc()\<close> and \<open>curr->pi\<close>: the process of the current task.\<close>

definition get_curr_proc :: "kstate \<Rightarrow> nat option" where
  "get_curr_proc s =
     (case curr s of
        None \<Rightarrow> None
      | Some c \<Rightarrow> (case tasks s c of None \<Rightarrow> None | Some t \<Rightarrow> Some (pi t)))"

definition sigaction_int ::
  "'m user_access \<Rightarrow> config \<Rightarrow> int \<Rightarrow> nat \<Rightarrow> 'm \<Rightarrow> kstate \<Rightarrow> stop + (int \<times> kstate)" where
  "sigaction_int ua cfg signum user_act m s =
     (case copy_from_user_sigaction ua m user_act of
        None \<Rightarrow> Inr (- EFAULT, s)
      | Some act \<Rightarrow>
          if sa_flags act AND SA_NOCLDSTOP \<noteq> 0 then Inr (- EINVAL, s)
          else if sa_flags act AND SA_NOCLDWAIT \<noteq> 0 then Inr (- EINVAL, s)
          else if sa_flags act AND SA_SIGINFO \<noteq> 0 then Inr (- EINVAL, s)
          else if sa_flags act AND SA_ONSTACK \<noteq> 0 then Inr (- EINVAL, s)
          else
            (case get_curr_proc s of
               None \<Rightarrow> Inl Null_task
             | Some pr \<Rightarrow>
                 Inr (0, s\<lparr>procs := (procs s)
                            (pr := (procs s pr)
                               \<lparr>sa_handlers := (sa_handlers (procs s pr))
                                  (nat (signum - 1) := handler act)\<rparr>)\<rparr>)))"

text \<open>
  \<open>sys_rt_sigaction\<close>. \<open>oldact\<close> is filled exactly when \<open>user_oldact\<close> is not
  \<open>NULL\<close> (address 0).
\<close>

definition sys_rt_sigaction ::
  "'m user_access \<Rightarrow> config \<Rightarrow> int \<Rightarrow> nat \<Rightarrow> nat \<Rightarrow> nat \<Rightarrow> 'm \<Rightarrow> kstate
     \<Rightarrow> stop + (int \<times> 'm \<times> kstate)" where
  "sys_rt_sigaction ua cfg signum user_act user_oldact sigsetsize m s =
     (if \<not> IN_RANGE signum 1 (NSIG cfg) then Inr (- EINVAL, m, s)
      else if signum = SIGKILL \<or> signum = SIGSTOP then Inr (- EINVAL, m, s)
      else if sigsetsize \<noteq> K_SIGACTION_MASK_WORDS cfg * sizeof_ulong then Inr (- EINVAL, m, s)
      else
        (let s1 = disable_preemption s
         in case (if user_oldact \<noteq> 0
                  then (case get_curr_proc s1 of
                          None \<Rightarrow> Inl Null_task
                        | Some pr \<Rightarrow>
                            Inr (Some \<lparr>handler = sa_handlers (procs s1 pr) (nat (signum - 1)),
                                       sa_flags = 0,
                                       act_sa_mask = sa_mask (procs s1 pr)\<rparr>))
                  else Inr None) of
              Inl e \<Rightarrow> Inl e
            | Inr oldact \<Rightarrow>
                (case (if user_act \<noteq> 0 then sigaction_int ua cfg signum user_act m s1
                       else Inr (0, s1)) of
                   Inl e \<Rightarrow> Inl e
                 | Inr (rc, s2) \<Rightarrow>
                     (let s3 = enable_preemption s2
                      in case oldact of
                           None \<Rightarrow> Inr (rc, m, s3)
                         | Some oa \<Rightarrow>
                             if rc = 0
                             then
                               (case copy_to_user ua m user_oldact (Buf_sigaction oa)
                                       (sizeof_k_sigaction cfg) of
                                  (r, m') \<Rightarrow>
                                    if r \<noteq> 0 then Inr (- EFAULT, m', s3) else Inr (rc, m', s3))
                             else Inr (rc, m, s3)))))"

text \<open>
  The first half of \<open>sys_rt_sigprocmask\<close>, under \<open>if (user_oldset)\<close>: the copy-out
  of the old mask and, when \<open>sigsetsize\<close> is larger than the mask, of the zero
  padding. It gives the return code so far and the user memory.
\<close>

definition sigprocmask_copy_oldset ::
  "'m user_access \<Rightarrow> config \<Rightarrow> nat \<Rightarrow> nat \<Rightarrow> ulong list \<Rightarrow> 'm \<Rightarrow> int \<times> 'm" where
  "sigprocmask_copy_oldset ua cfg user_oldset sigsetsize msk m =
     (case copy_to_user ua m user_oldset (Buf_sa_mask msk) sigsetsize of
        (rc, m1) \<Rightarrow>
          if rc \<noteq> 0 then (- EFAULT, m1)
          else if sigsetsize > K_SIGACTION_MASK_WORDS cfg * sizeof_ulong
          then
            (case copy_to_user ua m1 (user_oldset + K_SIGACTION_MASK_WORDS cfg * sizeof_ulong)
                    Buf_zero_page (sigsetsize - K_SIGACTION_MASK_WORDS cfg * sizeof_ulong) of
               (rc2, m2) \<Rightarrow> if rc2 \<noteq> 0 then (- EFAULT, m2) else (0, m2))
          else (0, m1))"

text \<open>
  The second half, under \<open>if (user_set)\<close>: the loop over the words of the mask. Each
  round reads one word of the new set and applies it to \<open>pi->sa_mask[i]\<close>. It gives
  the return code and the mask as the loop leaves it.
\<close>

function sigprocmask_loop ::
  "'m user_access \<Rightarrow> config \<Rightarrow> int \<Rightarrow> nat \<Rightarrow> 'm \<Rightarrow> nat \<Rightarrow> ulong list
     \<Rightarrow> stop + (int \<times> ulong list)" where
  "sigprocmask_loop ua cfg how user_set m i msk =
     (if i < K_SIGACTION_MASK_WORDS cfg
      then
        (case copy_from_user_ulong ua m (user_set + i * sizeof_ulong) of
           None \<Rightarrow> Inr (- EFAULT, msk)
         | Some w \<Rightarrow>
             (case word_at msk i of
                Inl e \<Rightarrow> Inl e
              | Inr old \<Rightarrow>
                  if how = SIG_BLOCK
                  then sigprocmask_loop ua cfg how user_set m (i + 1) (msk[i := old OR w])
                  else if how = SIG_UNBLOCK
                  then sigprocmask_loop ua cfg how user_set m (i + 1) (msk[i := old AND NOT w])
                  else if how = SIG_SETMASK
                  then sigprocmask_loop ua cfg how user_set m (i + 1) (msk[i := w])
                  else Inr (- EINVAL, msk)))
      else Inr (0, msk))"
  by pat_completeness auto
termination
  by (relation "measure (\<lambda>(ua, cfg, how, user_set, m, i, msk). K_SIGACTION_MASK_WORDS cfg - i)")
    auto

declare sigprocmask_loop.simps [simp del]

definition sys_rt_sigprocmask ::
  "'m user_access \<Rightarrow> config \<Rightarrow> int \<Rightarrow> nat \<Rightarrow> nat \<Rightarrow> nat \<Rightarrow> 'm \<Rightarrow> kstate
     \<Rightarrow> stop + (int \<times> 'm \<times> kstate)" where
  "sys_rt_sigprocmask ua cfg how user_set user_oldset sigsetsize m s =
     (case get_curr_proc s of
        None \<Rightarrow> Inl Null_task
      | Some pr \<Rightarrow>
          (case (if user_oldset \<noteq> 0
                 then sigprocmask_copy_oldset ua cfg user_oldset sigsetsize
                        (sa_mask (procs s pr)) m
                 else (0, m)) of
             (rc, m1) \<Rightarrow>
               if rc \<noteq> 0 then Inr (rc, m1, s)
               else if user_set \<noteq> 0
               then
                 (case sigprocmask_loop ua cfg how user_set m1 0 (sa_mask (procs s pr)) of
                    Inl e \<Rightarrow> Inl e
                  | Inr (rc2, msk) \<Rightarrow>
                      Inr (rc2, m1, s\<lparr>procs := (procs s)(pr := (procs s pr)\<lparr>sa_mask := msk\<rparr>)\<rparr>))
               else Inr (0, m1, s)))"

section \<open>The context switch and the fault handlers\<close>

definition is_fpu_enabled_for_task :: "task \<Rightarrow> bool" where
  "is_fpu_enabled_for_task ti = (fpu_regs ti \<and> sstatus ti AND SR_FS \<noteq> 0)"

text \<open>\<open>save_curr_fpu_ctx_if_enabled\<close>, given the current task.\<close>

definition save_curr_fpu_ctx_if_enabled :: "task \<Rightarrow> kstate \<Rightarrow> kstate" where
  "save_curr_fpu_ctx_if_enabled c s =
     (if is_fpu_enabled_for_task c then log_event Save_current_fpu_regs s else s)"

text \<open>
  Modelled from the spec: the \<open>process_signals\<close> that \<open>switch_to_task\<close> calls takes
  the task (\<open>process_signals(ti, sig_in_usermode, state)\<close>) and is not under
  \<open>src/\<close>. As the specification has it, and as the \<open>process_signals\<close> of
  \<open>signal.c\<close> does for the current task: it is called with the preemption gate held;
  if the task has a pending signal it re-enables preemption and ends in
  \<open>terminate_process\<close> with the first pending signal as the cause, and never
  returns; otherwise it returns and changes nothing.
\<close>

definition process_signals_of_task :: "config \<Rightarrow> int \<Rightarrow> kstate \<Rightarrow> stop + kstate" where
  "process_signals_of_task cfg ti s =
     (if is_preemption_enabled s then Inl Assert_failed
      else
        (case tasks s ti of
           None \<Rightarrow> Inl Null_task
         | Some t \<Rightarrow>
             (case get_first_pending_sig cfg t of
                Inl e \<Rightarrow> Inl e
              | Inr sig \<Rightarrow>
                  if sig > 0 then Inl (Process_terminated 0 sig)
                  else Inr s)))"

text \<open>
  \<open>switch_to_task\<close> does not return: \<open>Inr\<close> is the state in which it enters
  \<open>context_switch(state)\<close>, and \<open>Inl\<close> a failed assertion or the end of the
  process in \<open>process_signals\<close>. The function is modelled in three pieces, in the
  order of the source. \<open>state\<close> is the pointer \<open>ti->state_regs\<close> saved on entry;
  the registers it points to do not change in the modelled part, so
  \<open>state->sstatus\<close> is \<open>saved_sstatus\<close>, the \<open>sstatus\<close> of the task on entry.

  The block under \<open>if (!is_kernel_thread(ti))\<close>: the page directory, the call of
  \<open>process_signals\<close> for a task that returns to user mode, the FPU registers.
  \<open>t1\<close> is the task as the block finds it.
\<close>

definition switch_to_task_user_block ::
  "config \<Rightarrow> int \<Rightarrow> task \<Rightarrow> ulong \<Rightarrow> kstate \<Rightarrow> stop + kstate" where
  "switch_to_task_user_block cfg ti t1 saved_sstatus s2 =
     (let s3a = (if curr_pdir s2 \<noteq> pdir (procs s2 (pi t1))
                 then s2\<lparr>curr_pdir := pdir (procs s2 (pi t1))\<rparr>
                 else s2)
      in case (if \<not> running_in_kernel t1 \<and> saved_sstatus AND SR_SPP = 0
               then process_signals_of_task cfg ti s3a
               else Inr s3a) of
           Inl e \<Rightarrow> Inl e
         | Inr s3b \<Rightarrow>
             Inr (if is_fpu_enabled_for_task t1
                  then log_event (Restore_fpu_regs ti) s3b
                  else s3b))"

text \<open>
  The end of the function, from \<open>disable_interrupts_forced()\<close> to
  \<open>context_switch(state)\<close>.
\<close>

definition switch_to_task_tail :: "int \<Rightarrow> task \<Rightarrow> kstate \<Rightarrow> stop + kstate" where
  "switch_to_task_tail ti t1 s3 =
     (let s4 = log_event Disable_interrupts_forced s3;
          s5 = log_event Pop_nested_interrupts s4;
          s6 = enable_preemption s5
      in if \<not> is_preemption_enabled s6 then Inl Assert_failed
         else
           (let s7 = (if \<not> running_in_kernel t1
                      then log_event (Task_info_reset_kernel_stack ti) s6
                      else log_event (Adjust_nested_interrupts ti) s6);
                s8 = s7\<lparr>curr := Some ti\<rparr>;
                s9 = put_task ti (t1\<lparr>timer_ready := False\<rparr>) s8
            in Inr (log_event (Context_switch ti) s9)))"

text \<open>
  The whole function. The checks of \<open>switch_to_task_safety_checks\<close> are not under
  \<open>src/\<close>: they are the parameter \<open>safety_checks\<close>, a failed one being a failed
  assertion.
\<close>

definition switch_to_task ::
  "(kstate \<Rightarrow> int \<Rightarrow> int \<Rightarrow> bool) \<Rightarrow> config \<Rightarrow> int \<Rightarrow> kstate \<Rightarrow> stop + kstate" where
  "switch_to_task safety_checks cfg ti s =
     (case tasks s ti of
        None \<Rightarrow> Inl Null_task
      | Some t \<Rightarrow>
          let saved_sstatus = sstatus t
          in case curr s of
               None \<Rightarrow> Inl Assert_failed
             | Some c \<Rightarrow>
                 (case tasks s c of
                    None \<Rightarrow> Inl Null_task
                  | Some ct \<Rightarrow>
                      if ti \<noteq> c \<and> state ct = TASK_STATE_RUNNING then Inl Assert_failed
                      else if ti \<noteq> c \<and> state t \<noteq> TASK_STATE_RUNNABLE then Inl Assert_failed
                      else if is_preemption_enabled s then Inl Assert_failed
                      else if \<not> safety_checks s c ti then Inl Assert_failed
                      else
                        (let t1 = (task_change_state_idempotent t TASK_STATE_RUNNING)
                                    \<lparr>timeslice := 0\<rparr>;
                             s1 = put_task ti t1 s;
                             ct1 = (if ti = c then t1 else ct);
                             s2 = (if \<not> is_kernel_thread s1 ct1 \<and> state ct1 \<noteq> TASK_STATE_ZOMBIE
                                   then save_curr_fpu_ctx_if_enabled ct1 s1
                                   else s1)
                         in case (if \<not> is_kernel_thread s2 t1
                                  then switch_to_task_user_block cfg ti t1 saved_sstatus s2
                                  else Inr s2) of
                              Inl e \<Rightarrow> Inl e
                            | Inr s3 \<Rightarrow> switch_to_task_tail ti t1 s3)))"

text \<open>
  The fault handlers. \<open>send_signal\<close> (three arguments) is not under \<open>src/\<close>: its call
  is recorded in the log with the thread id, the signal and the flags
  \<open>SIG_FL_PROCESS | SIG_FL_FAULT\<close>. \<open>get_curr_tid()\<close> is the thread id of the
  current task.
\<close>

definition handle_fatal_error :: "int \<Rightarrow> kstate \<Rightarrow> stop + kstate" where
  "handle_fatal_error signum s =
     (case curr s of
        None \<Rightarrow> Inl Null_task
      | Some tid \<Rightarrow> Inr (log_event (Send_signal tid signum {SIG_FL_PROCESS, SIG_FL_FAULT}) s))"

definition fault_panic :: "string \<Rightarrow> stop" where
  "fault_panic fault_name = Panic (''FAULT. Error: '' @ fault_name @ [CHR 0x0A])"

text \<open>
  The test \<open>!get_curr_task() || is_kernel_thread(get_curr_task())\<close> that the three
  handlers share.
\<close>

definition no_user_task :: "kstate \<Rightarrow> stop + bool" where
  "no_user_task s =
     (case curr s of
        None \<Rightarrow> Inr True
      | Some c \<Rightarrow>
          (case tasks s c of
             None \<Rightarrow> Inl Null_task
           | Some t \<Rightarrow> Inr (is_kernel_thread s t)))"

definition handle_generic_fault_int :: "string \<Rightarrow> kstate \<Rightarrow> stop + kstate" where
  "handle_generic_fault_int fault_name s =
     (case no_user_task s of
        Inl e \<Rightarrow> Inl e
      | Inr b \<Rightarrow> if b then Inl (fault_panic fault_name) else handle_fatal_error SIGSEGV s)"

definition handle_inst_illegal_fault_int :: "string \<Rightarrow> kstate \<Rightarrow> stop + kstate" where
  "handle_inst_illegal_fault_int fault_name s =
     (case no_user_task s of
        Inl e \<Rightarrow> Inl e
      | Inr b \<Rightarrow> if b then Inl (fault_panic fault_name) else handle_fatal_error SIGILL s)"

definition handle_bus_fault_int :: "string \<Rightarrow> kstate \<Rightarrow> stop + kstate" where
  "handle_bus_fault_int fault_name s =
     (case no_user_task s of
        Inl e \<Rightarrow> Inl e
      | Inr b \<Rightarrow> if b then Inl (fault_panic fault_name) else handle_fatal_error SIGBUS s)"

section \<open>Concrete configurations and states\<close>

text \<open>
  Two builds: one word per bitmask (64 signals in one 64-bit word) and two words per
  bitmask.
\<close>

definition cfg_one_word :: config where
  "cfg_one_word = \<lparr>K_SIGACTION_MASK_WORDS = 1, NSIG = 64, sizeof_k_sigaction = 32\<rparr>"

definition cfg_two_words :: config where
  "cfg_two_words = \<lparr>K_SIGACTION_MASK_WORDS = 2, NSIG = 64, sizeof_k_sigaction = 40\<rparr>"

text \<open>A user task asleep on a wait object of kind 2, with nothing pending.\<close>

definition sleeper :: task where
  "sleeper =
     \<lparr>pi = 1, state = TASK_STATE_SLEEPING, pending_signums = [0, 0], vfork_stopped = False,
      stopped = False, wobj_type = WOBJ_other 2, wstatus = 0, timeslice = 3,
      running_in_kernel = True, timer_ready = False, sstatus = 0, fpu_regs = False\<rparr>"

text \<open>The same task with signals 66 and 69 pending.\<close>

definition two_pending :: task where
  "two_pending = sleeper\<lparr>pending_signums := [0, 0x12]\<rparr>"

text \<open>
  Four processes (the kernel's own, number 0, and three user processes with pids 7, 5
  and 1) and four tasks: \<open>init\<close> (thread id 1), the running task (5), the sleeper (7)
  and a kernel thread (9). The process of \<open>init\<close> has a user handler for signal 10 and
  ignores signal 12.
\<close>

definition proc_of_pid :: "int \<Rightarrow> process" where
  "proc_of_pid p = \<lparr>pid = p, sa_handlers = (\<lambda>i. SIG_DFL), sa_mask = [0, 0], pdir = 100\<rparr>"

definition init_proc :: process where
  "init_proc = (proc_of_pid 1)\<lparr>sa_handlers := (\<lambda>i. SIG_DFL)(9 := 0x4000, 11 := SIG_IGN)\<rparr>"

definition runner :: task where
  "runner = sleeper\<lparr>pi := 2, state := TASK_STATE_RUNNING\<rparr>"

definition init_task :: task where
  "init_task = sleeper\<lparr>pi := 3, state := TASK_STATE_RUNNABLE\<rparr>"

definition kworker :: task where
  "kworker = sleeper\<lparr>pi := 0, state := TASK_STATE_RUNNABLE\<rparr>"

definition demo_state :: kstate where
  "demo_state =
     \<lparr>tasks = [1 \<mapsto> init_task, 5 \<mapsto> runner, 7 \<mapsto> sleeper, 9 \<mapsto> kworker],
      procs = (\<lambda>r. proc_of_pid 0)(1 := proc_of_pid 7, 2 := proc_of_pid 5, 3 := init_proc),
      curr = Some 5, kernel_process_pi = 0, disable_preemption_count = 1, curr_pdir = 100,
      klog = []\<rparr>"

text \<open>The same state with the process of \<open>init\<close> ignoring signal 10.\<close>

definition demo_state_ign :: kstate where
  "demo_state_ign =
     demo_state\<lparr>procs := (procs demo_state)
        (3 := init_proc\<lparr>sa_handlers := (sa_handlers init_proc)(9 := SIG_IGN)\<rparr>)\<rparr>"

text \<open>
  The condition under which the specification has \<open>send\<close> answer "no such task", in
  its words: no task has the thread id, or the task is a kernel-only thread, or
  \<open>whole_process\<close> is true but \<open>tid\<close> is not the task's process id, or the task's
  process id differs from \<open>pid\<close>.
\<close>

definition esrch_condition :: "kstate \<Rightarrow> int \<Rightarrow> int \<Rightarrow> bool \<Rightarrow> bool" where
  "esrch_condition s pid' tid whole_process =
     (case get_task s tid of
        None \<Rightarrow> True
      | Some ti \<Rightarrow>
          is_kernel_thread s ti \<or>
          (whole_process \<and> tid \<noteq> pid (procs s (pi ti))) \<or>
          pid (procs s (pi ti)) \<noteq> pid')"

text \<open>
  A user memory of 64-bit words by address. A read of a word faults where no word is
  mapped; a \<open>k_sigaction\<close> is read as its handler word followed by its flags word; a
  write succeeds where the first destination word is mapped and stores the first word
  of the buffer.
\<close>

type_synonym word_mem = "nat \<rightharpoonup> ulong"

definition first_word :: "kernel_buf \<Rightarrow> ulong" where
  "first_word buf =
     (case buf of
        Buf_sa_mask ws \<Rightarrow> (case ws of [] \<Rightarrow> 0 | w # _ \<Rightarrow> w)
      | Buf_zero_page \<Rightarrow> 0
      | Buf_sigaction act \<Rightarrow> handler act)"

definition word_access :: "word_mem user_access" where
  "word_access =
     \<lparr>copy_from_user_sigaction =
        (\<lambda>m a. case m a of
                 None \<Rightarrow> None
               | Some h \<Rightarrow>
                   (case m (a + 8) of
                      None \<Rightarrow> None
                    | Some f \<Rightarrow> Some \<lparr>handler = h, sa_flags = f, act_sa_mask = []\<rparr>)),
      copy_from_user_ulong = (\<lambda>m a. m a),
      copy_to_user =
        (\<lambda>m a buf n. if m a = None then (- EFAULT, m) else (0, m(a \<mapsto> first_word buf)))\<rparr>"

text \<open>
  Words are mapped at 4096 (value 5; the next word, at 4104, is not mapped) and at
  8192 and 8200 (a handler address and the flags \<open>SA_SIGINFO\<close>).
\<close>

definition demo_mem :: word_mem where
  "demo_mem = [4096 \<mapsto> 5, 8192 \<mapsto> 0x4000, 8200 \<mapsto> SA_SIGINFO]"

text \<open>
  What one round of the loop of \<open>sys_rt_sigprocmask\<close> stores in \<open>pi->sa_mask[i]\<close>
  for a valid \<open>how\<close>: the three cases of its \<open>switch\<close>.
\<close>

definition apply_how :: "int \<Rightarrow> ulong \<Rightarrow> ulong \<Rightarrow> ulong" where
  "apply_how how old w =
     (if how = SIG_BLOCK then old OR w
      else if how = SIG_UNBLOCK then old AND NOT w
      else w)"

text \<open>The same state with the kernel thread as the current task.\<close>

definition demo_state_kthread :: kstate where
  "demo_state_kthread = demo_state\<lparr>curr := Some 9\<rparr>"




section \<open>Facts about the pending-signal bitmask\<close>

lemma sdiv_nonneg: "0 \<le> a \<Longrightarrow> a sdiv int NBITS = a div int NBITS"
  by (simp add: signed_divide_int_def NBITS_def sgn_if)

lemma smod_nonneg: "0 \<le> a \<Longrightarrow> a smod int NBITS = a mod int NBITS"
  by (simp add: signed_modulo_int_def NBITS_def sgn_if)

text \<open>
  C5. For a signal number whose slot \<open>(signum - 1) / NBITS\<close> is at or beyond
  \<open>K_SIGACTION_MASK_WORDS\<close>, \<open>add_pending_sig\<close> and \<open>del_pending_sig\<close> return with
  the task, and so its bitmask, unchanged and \<open>is_pending_sig\<close> returns false. None
  of the three ends in \<open>Out_of_bounds\<close>: the bitmask is not accessed at all, whatever
  its length.
\<close>

theorem pending_ops_beyond_range:
  assumes "0 < signum"
    and "int (K_SIGACTION_MASK_WORDS cfg) \<le> (signum - 1) sdiv int NBITS"
  shows "add_pending_sig cfg ti signum = Inr ti \<and>
         del_pending_sig cfg ti signum = Inr ti \<and>
         is_pending_sig cfg ti signum = Inr False"
  using assms
  by (simp add: add_pending_sig_def del_pending_sig_def is_pending_sig_def Let_def)

theorem pending_ops_beyond_range_witness:
  "(0 :: int) < 129 \<and>
   int (K_SIGACTION_MASK_WORDS cfg_two_words) \<le> (129 - 1) sdiv int NBITS \<and>
   add_pending_sig cfg_two_words sleeper 129 = Inr sleeper \<and>
   del_pending_sig cfg_two_words sleeper 129 = Inr sleeper \<and>
   is_pending_sig cfg_two_words sleeper 129 = Inr False"
proof -
  have pos: "(0 :: int) < 129" by simp
  have slot: "int (K_SIGACTION_MASK_WORDS cfg_two_words) \<le> (129 - 1) sdiv int NBITS"
    by (simp add: cfg_two_words_def NBITS_def signed_divide_int_def)
  show ?thesis
    using pos slot pending_ops_beyond_range [OF pos slot, of sleeper] by simp
qed

lemma and_push_bit_1_iff: "i < 64 \<Longrightarrow> (num AND push_bit i 1 \<noteq> 0) = bit (num :: ulong) i"
  by (metis and_exp_eq_0_iff_not_bit push_bit_of_1)

lemma bit_loop_least:
  "i \<le> j \<Longrightarrow> j < 64 \<Longrightarrow> bit num j \<Longrightarrow>
   i \<le> get_first_set_bit_index64_loop num i \<and>
   get_first_set_bit_index64_loop num i \<le> j \<and>
   bit num (get_first_set_bit_index64_loop num i) \<and>
   (\<forall>k. i \<le> k \<and> k < get_first_set_bit_index64_loop num i \<longrightarrow> \<not> bit num k)"
proof (induction num i rule: get_first_set_bit_index64_loop.induct)
  case (1 num i)
  show ?case
  proof (cases "bit num i")
    case True
    have i64: "i < 64" using 1 by simp
    have nz: "num AND push_bit i 1 \<noteq> 0" using True and_push_bit_1_iff[OF i64, of num] by blast
    have eq: "get_first_set_bit_index64_loop num i = i"
      using nz i64 by (subst get_first_set_bit_index64_loop.simps) simp
    show ?thesis unfolding eq using True "1.prems" by auto
  next
    case False
    with 1 have lt: "i < j" by (metis le_neq_implies_less)
    have i64: "i < 64" using lt 1 by simp
    have nz: "\<not> num AND push_bit i 1 \<noteq> 0" using False and_push_bit_1_iff[OF i64, of num] by blast
    have IH: "i + 1 \<le> get_first_set_bit_index64_loop num (i + 1) \<and>
   get_first_set_bit_index64_loop num (i + 1) \<le> j \<and>
   bit num (get_first_set_bit_index64_loop num (i + 1)) \<and>
   (\<forall>k. i + 1 \<le> k \<and> k < get_first_set_bit_index64_loop num (i + 1) \<longrightarrow> \<not> bit num k)"
      using "1.IH"[OF i64 nz] lt "1.prems" by simp
    have eq: "get_first_set_bit_index64_loop num i = get_first_set_bit_index64_loop num (i + 1)"
      using i64 nz by (subst get_first_set_bit_index64_loop.simps) simp
    show ?thesis unfolding eq using IH False
      by (metis Suc_eq_plus1 Suc_leI le_neq_implies_less add_leD1)
  qed
qed

lemma word_nonzero_bit: "(w :: ulong) \<noteq> 0 \<Longrightarrow> \<exists>j<64. bit w j"
proof -
  assume "w \<noteq> 0"
  then obtain j where j: "bit w j" by (auto simp: bit_eq_iff)
  then have "j < 64" using bit_imp_le_length[OF j] by simp
  with j show ?thesis by blast
qed

lemma sint_u32_of_nat: "n < 2 ^ 31 \<Longrightarrow> sint (word_of_nat n :: 32 word) = int n"
proof -
  assume n: "n < 2 ^ 31"
  have "sint (word_of_nat n :: 32 word) = signed_take_bit 31 (int n)"
    by (simp add: signed_of_nat)
  also have "\<dots> = int n"
    by (rule signed_take_bit_int_eq_self) (use n in simp_all)
  finally show ?thesis .
qed

lemma get_first_set_bit_index64_least:
  assumes "val \<noteq> 0"
  shows "\<exists>idx. get_first_set_bit_index64 val = Inr idx \<and> idx < 64 \<and> bit val idx \<and>
           (\<forall>k<idx. \<not> bit val k)"
proof -
  obtain j where j: "j < 64" "bit val j" using word_nonzero_bit[OF assms] by blast
  from bit_loop_least[of 0 j val] j
  show ?thesis using assms by (simp add: get_first_set_bit_index64_def)
qed

lemma first_pending_loop_empty:
  "length (pending_signums ti) = K_SIGACTION_MASK_WORDS cfg \<Longrightarrow>
   \<forall>j. i \<le> j \<and> j < K_SIGACTION_MASK_WORDS cfg \<longrightarrow> pending_signums ti ! j = 0 \<Longrightarrow>
   get_first_pending_sig_loop cfg ti i = Inr (- 1)"
proof (induction cfg ti i rule: get_first_pending_sig_loop.induct)
  case (1 cfg ti i)
  show ?case
  proof (cases "i < K_SIGACTION_MASK_WORDS cfg")
    case True
    have z: "pending_signums ti ! i = 0" using 1(3) True by simp
    have w: "word_at (pending_signums ti) i = Inr 0" using True 1(2) z by (simp add: word_at_def)
    have "get_first_pending_sig_loop cfg ti (i + 1) = Inr (- 1)"
      using "1.IH"[OF True w] 1(2,3) by simp
    then show ?thesis
      using True w by (subst get_first_pending_sig_loop.simps) simp
  next
    case False
    then show ?thesis by (subst get_first_pending_sig_loop.simps) simp
  qed
qed

lemma first_pending_loop_found:
  "length (pending_signums ti) = K_SIGACTION_MASK_WORDS cfg \<Longrightarrow>
   K_SIGACTION_MASK_WORDS cfg * NBITS < 2 ^ 31 \<Longrightarrow>
   i \<le> j \<Longrightarrow> j < K_SIGACTION_MASK_WORDS cfg \<Longrightarrow> pending_signums ti ! j \<noteq> 0 \<Longrightarrow>
   \<exists>w idx. i \<le> w \<and> w \<le> j \<and> idx < 64 \<and>
     get_first_pending_sig_loop cfg ti i = Inr (int (w * NBITS + idx + 1)) \<and>
     bit (pending_signums ti ! w) idx \<and>
     (\<forall>k<idx. \<not> bit (pending_signums ti ! w) k) \<and>
     (\<forall>v. i \<le> v \<and> v < w \<longrightarrow> pending_signums ti ! v = 0)"
proof (induction cfg ti i rule: get_first_pending_sig_loop.induct)
  case (1 cfg ti i)
  have iK: "i < K_SIGACTION_MASK_WORDS cfg" using 1 by simp
  show ?case
  proof (cases "pending_signums ti ! i = 0")
    case True
    have w: "word_at (pending_signums ti) i = Inr 0" using iK 1(2) True by (simp add: word_at_def)
    have lt: "i < j" using True 1 by (metis le_neq_implies_less)
    obtain w' idx where IH: "i + 1 \<le> w'" "w' \<le> j" "idx < 64"
      "get_first_pending_sig_loop cfg ti (i + 1) = Inr (int (w' * NBITS + idx + 1))"
      "bit (pending_signums ti ! w') idx"
      "\<forall>k<idx. \<not> bit (pending_signums ti ! w') k"
      "\<forall>v. i + 1 \<le> v \<and> v < w' \<longrightarrow> pending_signums ti ! v = 0"
      using "1.IH"[OF iK w] 1(2,3,5,6) lt by auto
    have eq: "get_first_pending_sig_loop cfg ti i = get_first_pending_sig_loop cfg ti (i + 1)"
      using iK w by (subst get_first_pending_sig_loop.simps) simp
    have zeros: "\<forall>v. i \<le> v \<and> v < w' \<longrightarrow> pending_signums ti ! v = 0"
      using IH(7) True by (metis Suc_eq_plus1 Suc_leI le_neq_implies_less)
    have "i \<le> w'" using IH(1) by simp
    then show ?thesis
      unfolding eq using IH(2-6) zeros by blast
  next
    case False
    have w: "word_at (pending_signums ti) i = Inr (pending_signums ti ! i)"
      using iK 1(2) by (simp add: word_at_def)
    obtain idx where idx: "get_first_set_bit_index64 (pending_signums ti ! i) = Inr idx"
      "idx < 64" "bit (pending_signums ti ! i) idx" "\<forall>k<idx. \<not> bit (pending_signums ti ! i) k"
      using get_first_set_bit_index64_least[OF False] by blast
    have "i * NBITS + idx + 1 \<le> K_SIGACTION_MASK_WORDS cfg * NBITS"
    proof -
      have "i * NBITS + idx + 1 \<le> i * NBITS + NBITS" using idx(2) by (simp add: NBITS_def)
      also have "\<dots> = (i + 1) * NBITS" by simp
      also have "\<dots> \<le> K_SIGACTION_MASK_WORDS cfg * NBITS"
        using iK by (intro mult_le_mono1) simp
      finally show ?thesis .
    qed
    then have small: "i * NBITS + idx + 1 < 2 ^ 31" using 1(3) by simp
    have "get_first_pending_sig_loop cfg ti i = Inr (int (i * NBITS + idx + 1))"
      using iK w False idx(1) sint_u32_of_nat[OF small]
      by (subst get_first_pending_sig_loop.simps) simp
    then show ?thesis
      using idx(2-4) 1(4) by (rule_tac x=i in exI, rule_tac x=idx in exI) auto
  qed
qed

text \<open>
  C6. With the bitmask an array of \<open>K_SIGACTION_MASK_WORDS\<close> words (and signal
  numbers that fit a C \<open>int\<close>), \<open>get_first_pending_sig\<close> returns \<open>-1\<close> when every
  word is zero, and when some word is not zero it returns a signal number whose bit is
  set and that is at most every signal number whose bit is set: the lowest-numbered
  pending signal.
\<close>

theorem get_first_pending_sig_lowest:
  assumes len: "length (pending_signums ti) = K_SIGACTION_MASK_WORDS cfg"
    and small: "K_SIGACTION_MASK_WORDS cfg * NBITS < 2 ^ 31"
  shows "((\<forall>w \<in> set (pending_signums ti). w = 0) \<longrightarrow> get_first_pending_sig cfg ti = Inr (- 1)) \<and>
         ((\<exists>w \<in> set (pending_signums ti). w \<noteq> 0) \<longrightarrow>
            (\<exists>n. get_first_pending_sig cfg ti = Inr (int n) \<and> sig_bit cfg ti n \<and>
                 (\<forall>m. sig_bit cfg ti m \<longrightarrow> n \<le> m)))"
proof (intro conjI impI)
  assume "\<forall>w \<in> set (pending_signums ti). w = 0"
  then have "\<forall>j. 0 \<le> j \<and> j < K_SIGACTION_MASK_WORDS cfg \<longrightarrow> pending_signums ti ! j = 0"
    using len by simp
  then show "get_first_pending_sig cfg ti = Inr (- 1)"
    unfolding get_first_pending_sig_def by (rule first_pending_loop_empty[OF len])
next
  assume "\<exists>w \<in> set (pending_signums ti). w \<noteq> 0"
  then obtain j where j: "j < K_SIGACTION_MASK_WORDS cfg" "pending_signums ti ! j \<noteq> 0"
    using len by (auto simp: in_set_conv_nth)
  obtain w idx where f: "w \<le> j" "idx < 64"
    "get_first_pending_sig_loop cfg ti 0 = Inr (int (w * NBITS + idx + 1))"
    "bit (pending_signums ti ! w) idx"
    "\<forall>k<idx. \<not> bit (pending_signums ti ! w) k"
    "\<forall>v. 0 \<le> v \<and> v < w \<longrightarrow> pending_signums ti ! v = 0"
    using first_pending_loop_found[OF len small _ j, of 0] by auto
  let ?n = "w * NBITS + idx + 1"
  have wK: "w < K_SIGACTION_MASK_WORDS cfg" using f(1) j(1) by simp
  have dv: "(?n - 1) div NBITS = w" and md: "(?n - 1) mod NBITS = idx"
    using f(2) by (simp_all add: NBITS_def)
  have sb: "sig_bit cfg ti ?n"
    unfolding sig_bit_def dv md using wK len f(4) by simp
  have least: "?n \<le> m" if m: "sig_bit cfg ti m" for m
  proof -
    let ?v = "(m - 1) div NBITS" and ?b = "(m - 1) mod NBITS"
    have m0: "0 < m" and bt: "bit (pending_signums ti ! ?v) ?b"
      using m by (simp_all add: sig_bit_def)
    have split: "m - 1 = ?v * NBITS + ?b" by simp
    have nz: "pending_signums ti ! ?v \<noteq> 0" using bt by auto
    have vw: "w \<le> ?v" using f(6) nz by (metis le0 not_le)
    show ?thesis
    proof (cases "?v = w")
      case True
      have "idx \<le> ?b" using f(5) bt True by (metis not_le)
      then have "w * NBITS + idx \<le> m - 1" using True split by (metis add_left_mono)
      then show ?thesis using m0 by simp
    next
      case False
      then have "w + 1 \<le> ?v" using vw by simp
      then have "(w + 1) * NBITS \<le> ?v * NBITS" by (rule mult_le_mono1)
      then have "w * NBITS + idx < m - 1 + 1" using f(2) split by (simp add: NBITS_def)
      then show ?thesis using m0 by simp
    qed
  qed
  show "\<exists>n. get_first_pending_sig cfg ti = Inr (int n) \<and> sig_bit cfg ti n \<and>
            (\<forall>m. sig_bit cfg ti m \<longrightarrow> n \<le> m)"
    unfolding get_first_pending_sig_def using f(3) sb least by blast
qed

theorem get_first_pending_sig_lowest_witness:
  "length (pending_signums two_pending) = K_SIGACTION_MASK_WORDS cfg_two_words \<and>
   K_SIGACTION_MASK_WORDS cfg_two_words * NBITS < 2 ^ 31 \<and>
   (\<exists>w \<in> set (pending_signums two_pending). w \<noteq> 0) \<and>
   (\<exists>n. get_first_pending_sig cfg_two_words two_pending = Inr (int n) \<and>
        sig_bit cfg_two_words two_pending n \<and>
        (\<forall>m. sig_bit cfg_two_words two_pending m \<longrightarrow> n \<le> m)) \<and>
   pending_signums sleeper = [0, 0] \<and>
   get_first_pending_sig cfg_two_words sleeper = Inr (- 1)"
proof -
  have len: "length (pending_signums two_pending) = K_SIGACTION_MASK_WORDS cfg_two_words"
    by (simp add: two_pending_def cfg_two_words_def)
  have small: "K_SIGACTION_MASK_WORDS cfg_two_words * NBITS < 2 ^ 31"
    by (simp add: cfg_two_words_def NBITS_def)
  have ne: "\<exists>w \<in> set (pending_signums two_pending). w \<noteq> 0"
    by (simp add: two_pending_def)
  have none: "pending_signums sleeper = [0, 0]" by (simp add: sleeper_def)
  have len0: "length (pending_signums sleeper) = K_SIGACTION_MASK_WORDS cfg_two_words"
    by (simp add: sleeper_def cfg_two_words_def)
  have zero: "\<forall>w \<in> set (pending_signums sleeper). w = 0" by (simp add: none)
  show ?thesis
    using len small ne none zero get_first_pending_sig_lowest [OF len small]
      get_first_pending_sig_lowest [OF len0 small]
    by blast
qed

section \<open>Facts about the signal actions\<close>

lemma default_action_table_range:
  "signal_default_actions signum = Some a \<Longrightarrow> 1 \<le> signum \<and> signum \<le> 31"
  by (simp add: signal_default_actions_def SIGHUP_def SIGINT_def SIGQUIT_def SIGILL_def
      SIGTRAP_def SIGABRT_def SIGBUS_def SIGFPE_def SIGKILL_def SIGUSR1_def SIGSEGV_def
      SIGUSR2_def SIGPIPE_def SIGALRM_def SIGTERM_def SIGCHLD_def SIGCONT_def SIGSTOP_def
      SIGTSTP_def SIGTTIN_def SIGTTOU_def SIGURG_def SIGXCPU_def SIGXFSZ_def SIGVTALRM_def
      SIGPROF_def SIGPOLL_def SIGSYS_def split: if_splits)

lemma add_pending_sig_low:
  assumes sig: "1 \<le> signum" "signum \<le> 31"
    and K: "0 < K_SIGACTION_MASK_WORDS cfg"
    and len: "length (pending_signums t) = K_SIGACTION_MASK_WORDS cfg"
  shows "add_pending_sig cfg t signum =
           Inr (t\<lparr>pending_signums :=
                    (pending_signums t)[0 := pending_signums t ! 0 OR push_bit (nat (signum - 1)) 1]\<rparr>)"
proof -
  have nn: "0 \<le> signum - 1" using sig by simp
  have "(signum - 1) div int NBITS = 0" "(signum - 1) mod int NBITS = signum - 1"
    using sig by (simp_all add: NBITS_def)
  then have slot: "(signum - 1) sdiv int NBITS = 0"
    and idx: "(signum - 1) smod int NBITS = signum - 1"
    using sdiv_nonneg[OF nn] smod_nonneg[OF nn] by simp_all
  have sh: "shl1 (signum - 1) = Inr (2 ^ nat (signum - 1))"
    using sig by (simp add: shl1_def)
  have w: "(word_of_int (2 ^ nat (signum - 1)) :: ulong) = push_bit (nat (signum - 1)) 1"
    by (simp add: push_bit_of_1)
  show ?thesis
    using sig K len unfolding add_pending_sig_def Let_def slot idx sh w
    by (simp add: word_at_def set_word_at_def)
qed

text \<open>
  \<open>action_terminate\<close> where the shift is defined, that is for the signal numbers 1 to
  31 (every signal that \<open>signal_default_actions\<close> names lies there,
  \<open>default_action_table_range\<close>). The signal is sent to a task that is not the
  current one, is not a kernel thread and is not vfork-stopped, with the preemption
  gate held as the function asserts. The call returns; in the state it leaves, the bit
  of the signal is set in the task's pending bitmask; a task that was \<open>SLEEPING\<close> on
  a wait object other than a mutex or a semaphore is \<open>RUNNABLE\<close>; in every other
  case, so for a task sleeping on a mutex or a semaphore, the state field is what it
  was.
\<close>

lemma action_terminate_defined_shift:
  assumes t: "tasks s ti = Some t"
    and other: "curr s \<noteq> Some ti"
    and gate: "\<not> is_preemption_enabled s"
    and user: "\<not> is_kernel_thread s t"
    and nvf: "\<not> vfork_stopped t"
    and sig: "1 \<le> signum" "signum \<le> 31"
    and K: "0 < K_SIGACTION_MASK_WORDS cfg"
    and len: "length (pending_signums t) = K_SIGACTION_MASK_WORDS cfg"
  shows "\<exists>s' t'. action_terminate cfg ti signum s = Inr s' \<and> tasks s' ti = Some t' \<and>
           sig_bit cfg t' (nat signum) \<and>
           state t' =
             (if state t = TASK_STATE_SLEEPING \<and> wobj_type t \<noteq> WOBJ_KMUTEX \<and> wobj_type t \<noteq> WOBJ_SEM
              then TASK_STATE_RUNNABLE else state t)"
proof -
  let ?ws = "(pending_signums t)[0 := pending_signums t ! 0 OR push_bit (nat (signum - 1)) 1]"
  let ?t1 = "t\<lparr>pending_signums := ?ws\<rparr>"
  let ?t2 = "if state ?t1 = TASK_STATE_SLEEPING
             then (if wobj_type ?t1 \<noteq> WOBJ_KMUTEX \<and> wobj_type ?t1 \<noteq> WOBJ_SEM
                   then task_change_state ?t1 TASK_STATE_RUNNABLE else ?t1)
             else ?t1"
  let ?t' = "?t2\<lparr>stopped := False\<rparr>"
  have add: "add_pending_sig cfg t signum = Inr ?t1"
    by (rule add_pending_sig_low[OF sig K len])
  have run: "action_terminate cfg ti signum s = Inr (put_task ti ?t' s)"
    unfolding action_terminate_def using t other gate user nvf add by (simp add: Let_def)
  have stored: "tasks (put_task ti ?t' s) ti = Some ?t'"
    by (simp add: put_task_def)
  have pend: "pending_signums ?t' = ?ws"
    by (simp add: task_change_state_def)
  have n1: "nat signum - 1 = nat (signum - 1)" using sig by simp
  have lt64: "nat (signum - 1) < 64" using sig by simp
  have bitset: "bit (?ws ! 0) (nat (signum - 1))"
    using K len lt64 by (simp add: bit_or_iff bit_exp_iff)
  have sb: "sig_bit cfg ?t' (nat signum)"
    unfolding sig_bit_def pend n1 using sig K len bitset lt64 by (simp add: NBITS_def)
  have st: "state ?t' =
             (if state t = TASK_STATE_SLEEPING \<and> wobj_type t \<noteq> WOBJ_KMUTEX \<and> wobj_type t \<noteq> WOBJ_SEM
              then TASK_STATE_RUNNABLE else state t)"
    by (simp add: task_change_state_def)
  show ?thesis using run stored sb st by blast
qed

lemma action_terminate_defined_shift_run:
  "tasks demo_state 7 = Some sleeper \<and> curr demo_state \<noteq> Some 7 \<and>
   \<not> is_preemption_enabled demo_state \<and> \<not> is_kernel_thread demo_state sleeper \<and>
   \<not> vfork_stopped sleeper \<and>
   (\<exists>s' t'. action_terminate cfg_two_words 7 SIGTERM demo_state = Inr s' \<and>
      tasks s' 7 = Some t' \<and> sig_bit cfg_two_words t' 15 \<and> state t' = TASK_STATE_RUNNABLE)"
proof -
  have t: "tasks demo_state 7 = Some sleeper" by (simp add: demo_state_def)
  have other: "curr demo_state \<noteq> Some 7" by (simp add: demo_state_def)
  have gate: "\<not> is_preemption_enabled demo_state"
    by (simp add: demo_state_def is_preemption_enabled_def)
  have user: "\<not> is_kernel_thread demo_state sleeper"
    by (simp add: demo_state_def is_kernel_thread_def sleeper_def)
  have nvf: "\<not> vfork_stopped sleeper" by (simp add: sleeper_def)
  have K: "0 < K_SIGACTION_MASK_WORDS cfg_two_words" by (simp add: cfg_two_words_def)
  have len: "length (pending_signums sleeper) = K_SIGACTION_MASK_WORDS cfg_two_words"
    by (simp add: cfg_two_words_def sleeper_def)
  have sig: "1 \<le> SIGTERM" "SIGTERM \<le> 31" by (simp_all add: SIGTERM_def)
  have st: "state sleeper = TASK_STATE_SLEEPING \<and> wobj_type sleeper \<noteq> WOBJ_KMUTEX \<and>
            wobj_type sleeper \<noteq> WOBJ_SEM"
    by (simp add: sleeper_def)
  have n: "nat SIGTERM = 15" by (simp add: SIGTERM_def)
  show ?thesis
    using t other gate user nvf st
      action_terminate_defined_shift [OF t other gate user nvf sig K len]
    by (simp add: n)
qed

text \<open>
  Under the default disposition, a signal whose entry in \<open>signal_default_actions\<close>
  is \<open>action_terminate\<close>, or that has no entry, is handled by \<open>action_terminate\<close>.
\<close>

lemma do_send_signal_default_terminate:
  assumes "tasks s ti = Some t"
    and "IN_RANGE signum 1 (NSIG cfg)"
    and "sa_handlers (procs s (pi t)) (nat (signum - 1)) = SIG_DFL"
    and "signal_default_actions signum = None \<or>
         signal_default_actions signum = Some action_terminate"
  shows "do_send_signal cfg ti signum s = action_terminate cfg ti signum s"
  using assms
  by (auto simp: do_send_signal_def IN_RANGE_def SIG_DFL_def SIG_IGN_def)

text \<open>
  C4. The property does not hold for every signal of the default-terminate class.
  Signal 40 has no entry in \<open>signal_default_actions\<close>, so under the default
  disposition \<open>do_send_signal\<close> runs \<open>action_terminate\<close>. The target is the
  sleeping task, not the current one, not vfork-stopped. \<open>add_pending_sig\<close> finds
  slot 0 and index 39 and evaluates \<open>1 << 39\<close> on \<open>int\<close>, which C does not
  define: the run does not set bit 39 of the pending bitmask. (The words of the
  bitmask have 64 bits; \<open>get_first_set_bit_index64\<close> scans them with
  \<open>1ull << i\<close>.)
\<close>

theorem do_send_signal_unlisted_signal:
  "IN_RANGE 40 1 (NSIG cfg_two_words) \<and>
   tasks demo_state 7 = Some sleeper \<and>
   curr demo_state \<noteq> Some 7 \<and>
   \<not> is_kernel_thread demo_state sleeper \<and>
   \<not> vfork_stopped sleeper \<and>
   \<not> is_preemption_enabled demo_state \<and>
   sa_handlers (procs demo_state (pi sleeper)) (nat (40 - 1)) = SIG_DFL \<and>
   signal_default_actions 40 = None \<and>
   (40 - 1) sdiv int NBITS = 0 \<and>
   (40 - 1) smod int NBITS = 39 \<and>
   shl1 39 = Inl Undefined_shift \<and>
   add_pending_sig cfg_two_words sleeper 40 = Inl Undefined_shift \<and>
   action_terminate cfg_two_words 7 40 demo_state = Inl Undefined_shift \<and>
   do_send_signal cfg_two_words 7 40 demo_state = Inl Undefined_shift"
proof -
  have r: "IN_RANGE 40 1 (NSIG cfg_two_words)"
    by (simp add: IN_RANGE_def cfg_two_words_def)
  have t: "tasks demo_state 7 = Some sleeper" by (simp add: demo_state_def)
  have other: "curr demo_state \<noteq> Some 7" by (simp add: demo_state_def)
  have user: "\<not> is_kernel_thread demo_state sleeper"
    by (simp add: demo_state_def is_kernel_thread_def sleeper_def)
  have nvf: "\<not> vfork_stopped sleeper" by (simp add: sleeper_def)
  have gate: "\<not> is_preemption_enabled demo_state"
    by (simp add: demo_state_def is_preemption_enabled_def)
  have h: "sa_handlers (procs demo_state (pi sleeper)) (nat (40 - 1)) = SIG_DFL"
    by (simp add: demo_state_def sleeper_def proc_of_pid_def)
  have none: "signal_default_actions 40 = None"
    by (simp add: signal_default_actions_def SIGHUP_def SIGINT_def SIGQUIT_def SIGILL_def
        SIGTRAP_def SIGABRT_def SIGBUS_def SIGFPE_def SIGKILL_def SIGUSR1_def SIGSEGV_def
        SIGUSR2_def SIGPIPE_def SIGALRM_def SIGTERM_def SIGCHLD_def SIGCONT_def SIGSTOP_def
        SIGTSTP_def SIGTTIN_def SIGTTOU_def SIGURG_def SIGXCPU_def SIGXFSZ_def SIGVTALRM_def
        SIGPROF_def SIGPOLL_def SIGSYS_def)
  have slot: "(40 - 1) sdiv int NBITS = 0" and idx: "(40 - 1) smod int NBITS = 39"
    by (simp_all add: NBITS_def signed_divide_int_def signed_modulo_int_def)
  have sh: "shl1 39 = Inl Undefined_shift" by (simp add: shl1_def)
  have add: "add_pending_sig cfg_two_words sleeper 40 = Inl Undefined_shift"
    using slot idx sh by (simp add: add_pending_sig_def Let_def cfg_two_words_def)
  have act: "action_terminate cfg_two_words 7 40 demo_state = Inl Undefined_shift"
    using t other gate user add by (simp add: action_terminate_def)
  have run: "do_send_signal cfg_two_words 7 40 demo_state = Inl Undefined_shift"
    using r t h none act
    by (simp add: do_send_signal_def IN_RANGE_def SIG_DFL_def SIG_IGN_def)
  show ?thesis
    using r t other user nvf gate h none slot idx sh add act run by simp
qed

lemma enable_disable_preemption [simp]: "enable_preemption (disable_preemption s) = s"
  by (simp add: enable_preemption_def disable_preemption_def)

lemma disable_preemption_fields [simp]:
  "tasks (disable_preemption s) = tasks s"
  "procs (disable_preemption s) = procs s"
  "curr (disable_preemption s) = curr s"
  "kernel_process_pi (disable_preemption s) = kernel_process_pi s"
  by (simp_all add: disable_preemption_def)

text \<open>
  The two paths of \<open>do_send_signal\<close> for a disposition other than \<open>SIG_DFL\<close>, for
  every task and every signal number in \<open>[1, _NSIG)\<close>: with a user handler the
  function returns with the state exactly as it was; with \<open>SIG_IGN\<close> it runs
  \<open>action_ignore\<close>, which logs the warning when the task is \<open>init\<close>.
\<close>

lemma do_send_signal_handler_paths:
  assumes "tasks s ti = Some t"
    and "IN_RANGE signum 1 (NSIG cfg)"
  shows "(sa_handlers (procs s (pi t)) (nat (signum - 1)) \<noteq> SIG_DFL \<and>
          sa_handlers (procs s (pi t)) (nat (signum - 1)) \<noteq> SIG_IGN
            \<longrightarrow> do_send_signal cfg ti signum s = Inr s) \<and>
         (sa_handlers (procs s (pi t)) (nat (signum - 1)) = SIG_IGN
            \<longrightarrow> do_send_signal cfg ti signum s =
                  Inr (if ti = 1 then log_event (Printk_ignoring_signal signum) s else s))"
  using assms by (simp add: do_send_signal_def IN_RANGE_def action_ignore_def)

text \<open>
  C2. The code does not do for \<open>init\<close> what the property says, and what the comment
  on its branch says ("treat custom signal handlers as SIG_IGN"). \<open>init\<close> (thread
  id 1) is sent signal 10: with a user handler installed \<open>do_send_signal\<close> returns
  at once and nothing is logged; with the disposition \<open>SIG_IGN\<close> in its place
  \<open>action_ignore\<close> runs and the warning is logged.
\<close>

theorem do_send_signal_user_handler_init:
  "sa_handlers (procs demo_state (pi init_task)) (nat (SIGUSR1 - 1)) \<noteq> SIG_DFL \<and>
   sa_handlers (procs demo_state (pi init_task)) (nat (SIGUSR1 - 1)) \<noteq> SIG_IGN \<and>
   sa_handlers (procs demo_state_ign (pi init_task)) (nat (SIGUSR1 - 1)) = SIG_IGN \<and>
   do_send_signal cfg_two_words 1 SIGUSR1 demo_state = Inr demo_state \<and>
   do_send_signal cfg_two_words 1 SIGUSR1 demo_state_ign =
     Inr (log_event (Printk_ignoring_signal SIGUSR1) demo_state_ign) \<and>
   klog demo_state = [] \<and>
   klog (log_event (Printk_ignoring_signal SIGUSR1) demo_state_ign) =
     [Printk_ignoring_signal SIGUSR1]"
  by (simp add: do_send_signal_def demo_state_def demo_state_ign_def init_task_def init_proc_def
      sleeper_def proc_of_pid_def SIGUSR1_def SIG_DFL_def SIG_IGN_def IN_RANGE_def
      cfg_two_words_def action_ignore_def log_event_def)

text \<open>
  C3. \<open>send_signal2\<close> returns \<open>-ESRCH\<close> (with the state unchanged) when the
  condition holds, and a return of \<open>-ESRCH\<close> happens only then; when the condition
  does not hold every return is a return of 0, and for \<open>signum = 0\<close> or a \<open>ZOMBIE\<close>
  target the call does return 0, with the state unchanged: nothing is delivered.
\<close>

theorem send_signal2_result:
  "(esrch_condition s pid' tid whole_process
      \<longrightarrow> send_signal2 cfg pid' tid signum whole_process s = Inr (- ESRCH, s)) \<and>
   ((\<exists>s'. send_signal2 cfg pid' tid signum whole_process s = Inr (- ESRCH, s'))
      \<longleftrightarrow> esrch_condition s pid' tid whole_process) \<and>
   (\<not> esrch_condition s pid' tid whole_process
      \<longrightarrow> (\<forall>rc s'. send_signal2 cfg pid' tid signum whole_process s = Inr (rc, s')
                    \<longrightarrow> rc = 0) \<and>
          (signum = 0 \<or> (\<exists>ti. get_task s tid = Some ti \<and> state ti = TASK_STATE_ZOMBIE)
             \<longrightarrow> send_signal2 cfg pid' tid signum whole_process s = Inr (0, s)))"
proof -
  have err: "send_signal2 cfg pid' tid signum whole_process s = Inr (- ESRCH, s)"
    if "esrch_condition s pid' tid whole_process"
    using that
    by (auto simp: esrch_condition_def send_signal2_def get_task_def is_kernel_thread_def Let_def
        split: option.splits)
  have ok: "rc = 0"
    if "\<not> esrch_condition s pid' tid whole_process"
      and "send_signal2 cfg pid' tid signum whole_process s = Inr (rc, s')" for rc s'
    using that
    by (auto simp: esrch_condition_def send_signal2_def get_task_def is_kernel_thread_def Let_def
        split: option.splits if_splits sum.splits)
  have probe: "send_signal2 cfg pid' tid signum whole_process s = Inr (0, s)"
    if "\<not> esrch_condition s pid' tid whole_process"
      and "signum = 0 \<or> (\<exists>ti. get_task s tid = Some ti \<and> state ti = TASK_STATE_ZOMBIE)"
    using that
    by (auto simp: esrch_condition_def send_signal2_def get_task_def is_kernel_thread_def Let_def
        split: option.splits)
  have nz: "- ESRCH \<noteq> 0" by (simp add: ESRCH_def)
  show ?thesis using err ok probe nz by blast
qed

theorem send_signal2_result_witness:
  "esrch_condition demo_state 9 9 False \<and>
   send_signal2 cfg_two_words 9 9 SIGTERM False demo_state = Inr (- ESRCH, demo_state) \<and>
   \<not> esrch_condition demo_state 7 7 True \<and>
   send_signal2 cfg_two_words 7 7 0 True demo_state = Inr (0, demo_state)"
proof -
  have kt: "esrch_condition demo_state 9 9 False"
    by (simp add: esrch_condition_def get_task_def demo_state_def is_kernel_thread_def
        kworker_def sleeper_def)
  have ut: "\<not> esrch_condition demo_state 7 7 True"
    by (simp add: esrch_condition_def get_task_def demo_state_def is_kernel_thread_def
        sleeper_def proc_of_pid_def)
  show ?thesis
    using kt ut
      send_signal2_result [where s = demo_state and pid' = 9 and tid = 9
        and whole_process = False and cfg = cfg_two_words and signum = SIGTERM]
      send_signal2_result [where s = demo_state and pid' = 7 and tid = 7
        and whole_process = True and cfg = cfg_two_words and signum = 0]
    by blast
qed

section \<open>Facts about the system calls\<close>

text \<open>
  C7. A request to install a disposition (\<open>user_act\<close> not \<open>NULL\<close> and readable)
  whose flags include \<open>SA_NOCLDSTOP\<close>, \<open>SA_NOCLDWAIT\<close>, \<open>SA_SIGINFO\<close> or
  \<open>SA_ONSTACK\<close>: \<open>sigaction_int\<close> and \<open>sys_rt_sigaction\<close> return \<open>-EINVAL\<close> and
  the kernel state, so every entry of every disposition table, is what it was. This
  holds for every signal number, size and \<open>user_oldact\<close>.
\<close>

theorem sys_rt_sigaction_unsupported_flags:
  assumes "get_curr_proc s = Some pr"
    and "user_act \<noteq> 0"
    and "copy_from_user_sigaction ua m user_act = Some act"
    and "sa_flags act AND SA_NOCLDSTOP \<noteq> 0 \<or> sa_flags act AND SA_NOCLDWAIT \<noteq> 0 \<or>
         sa_flags act AND SA_SIGINFO \<noteq> 0 \<or> sa_flags act AND SA_ONSTACK \<noteq> 0"
  shows "sigaction_int ua cfg signum user_act m s = Inr (- EINVAL, s) \<and>
         sys_rt_sigaction ua cfg signum user_act user_oldact sigsetsize m s =
           Inr (- EINVAL, m, s)"
proof -
  have inner: "sigaction_int ua cfg signum user_act m s' = Inr (- EINVAL, s')" for s'
    using assms(3,4) by (auto simp: sigaction_int_def)
  have nz: "- EINVAL \<noteq> 0" by (simp add: EINVAL_def)
  have "sys_rt_sigaction ua cfg signum user_act user_oldact sigsetsize m s =
           Inr (- EINVAL, m, s)"
    using assms(1,2) nz
    by (simp add: sys_rt_sigaction_def inner Let_def get_curr_proc_def disable_preemption_def
        enable_preemption_def split: option.splits)
  with inner show ?thesis by simp
qed

theorem sys_rt_sigaction_unsupported_flags_witness:
  "get_curr_proc demo_state = Some 2 \<and>
   copy_from_user_sigaction word_access demo_mem 8192 =
     Some \<lparr>handler = 0x4000, sa_flags = SA_SIGINFO, act_sa_mask = []\<rparr> \<and>
   SA_SIGINFO AND SA_SIGINFO \<noteq> 0 \<and>
   sys_rt_sigaction word_access cfg_two_words SIGUSR1 8192 0 16 demo_mem demo_state =
     Inr (- EINVAL, demo_mem, demo_state)"
proof -
  have c: "get_curr_proc demo_state = Some 2"
    by (simp add: get_curr_proc_def demo_state_def runner_def sleeper_def)
  have u: "(8192 :: nat) \<noteq> 0" by simp
  have rd: "copy_from_user_sigaction word_access demo_mem 8192 =
     Some \<lparr>handler = 0x4000, sa_flags = SA_SIGINFO, act_sa_mask = []\<rparr>"
    by (simp add: word_access_def demo_mem_def)
  have fl: "SA_SIGINFO AND SA_SIGINFO \<noteq> 0" by (simp add: SA_SIGINFO_def)
  have fl4: "sa_flags \<lparr>handler = 0x4000, sa_flags = SA_SIGINFO, act_sa_mask = []\<rparr> AND SA_NOCLDSTOP \<noteq> 0 \<or>
     sa_flags \<lparr>handler = 0x4000, sa_flags = SA_SIGINFO, act_sa_mask = []\<rparr> AND SA_NOCLDWAIT \<noteq> 0 \<or>
     sa_flags \<lparr>handler = 0x4000, sa_flags = SA_SIGINFO, act_sa_mask = []\<rparr> AND SA_SIGINFO \<noteq> 0 \<or>
     sa_flags \<lparr>handler = 0x4000, sa_flags = SA_SIGINFO, act_sa_mask = []\<rparr> AND SA_ONSTACK \<noteq> 0"
    using fl by simp
  show ?thesis
    using c rd fl sys_rt_sigaction_unsupported_flags [OF c u rd fl4] by simp
qed

text \<open>
  C1, as stated, fails. With two words per mask and \<open>SIG_SETMASK\<close>, the first word
  of the new set reads as 5 and the read of the second faults: the call returns
  \<open>-EFAULT\<close> with the first word of the blocked mask already replaced, \<open>[5, 0]\<close>
  for \<open>[0, 0]\<close>.
\<close>

theorem sigprocmask_fault_counterexample:
  "copy_from_user_ulong word_access demo_mem 4096 = Some 5 \<and>
   copy_from_user_ulong word_access demo_mem (4096 + 1 * sizeof_ulong) = None \<and>
   get_curr_proc demo_state = Some 2 \<and>
   sa_mask (procs demo_state 2) = [0, 0] \<and>
   sys_rt_sigprocmask word_access cfg_two_words SIG_SETMASK 4096 0 16 demo_mem demo_state =
     Inr (- EFAULT, demo_mem,
          demo_state\<lparr>procs := (procs demo_state)(2 := (proc_of_pid 5)\<lparr>sa_mask := [5, 0]\<rparr>)\<rparr>) \<and>
   sa_mask (procs (demo_state\<lparr>procs := (procs demo_state)
                     (2 := (proc_of_pid 5)\<lparr>sa_mask := [5, 0]\<rparr>)\<rparr>) 2) \<noteq>
     sa_mask (procs demo_state 2)"
proof -
  have r0: "copy_from_user_ulong word_access demo_mem 4096 = Some 5"
    by (simp add: word_access_def demo_mem_def)
  have r1: "copy_from_user_ulong word_access demo_mem (4096 + 1 * sizeof_ulong) = None"
    by (simp add: word_access_def demo_mem_def sizeof_ulong_def NBITS_def)
  have c: "get_curr_proc demo_state = Some 2"
    by (simp add: get_curr_proc_def demo_state_def runner_def sleeper_def)
  have p: "procs demo_state 2 = proc_of_pid 5" by (simp add: demo_state_def)
  have m: "sa_mask (proc_of_pid 5) = [0, 0]" by (simp add: proc_of_pid_def)
  have K: "K_SIGACTION_MASK_WORDS cfg_two_words = 2" by (simp add: cfg_two_words_def)
  have l1: "sigprocmask_loop word_access cfg_two_words SIG_SETMASK 4096 demo_mem 1 [5, 0] =
            Inr (- EFAULT, [5, 0])"
    using r1 by (subst sigprocmask_loop.simps) (simp add: K)
  have l0: "sigprocmask_loop word_access cfg_two_words SIG_SETMASK 4096 demo_mem 0 [0, 0] =
            Inr (- EFAULT, [5, 0])"
    using r0 l1
    by (subst sigprocmask_loop.simps)
       (simp add: K word_at_def SIG_SETMASK_def SIG_BLOCK_def SIG_UNBLOCK_def)
  have run: "sys_rt_sigprocmask word_access cfg_two_words SIG_SETMASK 4096 0 16 demo_mem
               demo_state =
             Inr (- EFAULT, demo_mem,
                  demo_state\<lparr>procs := (procs demo_state)
                     (2 := (proc_of_pid 5)\<lparr>sa_mask := [5, 0]\<rparr>)\<rparr>)"
    by (simp add: sys_rt_sigprocmask_def c p m l0)
  show ?thesis using r0 r1 c run by (simp add: p m)
qed

lemma sigprocmask_loop_fault:
  assumes valid: "how = SIG_BLOCK \<or> how = SIG_UNBLOCK \<or> how = SIG_SETMASK"
    and jK: "j < K_SIGACTION_MASK_WORDS cfg"
    and fault: "copy_from_user_ulong ua m (user_set + j * sizeof_ulong) = None"
  shows "n = j - i \<Longrightarrow> i \<le> j \<Longrightarrow> length msk = K_SIGACTION_MASK_WORDS cfg \<Longrightarrow>
     \<forall>k. i \<le> k \<and> k < j \<longrightarrow> copy_from_user_ulong ua m (user_set + k * sizeof_ulong) = Some (rd k) \<Longrightarrow>
     sigprocmask_loop ua cfg how user_set m i msk =
       Inr (- EFAULT,
            map (\<lambda>k. if i \<le> k \<and> k < j then apply_how how (msk ! k) (rd k) else msk ! k)
              [0..<K_SIGACTION_MASK_WORDS cfg])"
proof (induction n arbitrary: i msk)
  case 0
  then have ij: "i = j" by simp
  have "map (\<lambda>k. msk ! k) [0..<K_SIGACTION_MASK_WORDS cfg] = msk"
    using map_nth[of msk] 0(3) by simp
  moreover have "map (\<lambda>k. if j \<le> k \<and> k < j then apply_how how (msk ! k) (rd k) else msk ! k)
                   [0..<K_SIGACTION_MASK_WORDS cfg] =
                 map (\<lambda>k. msk ! k) [0..<K_SIGACTION_MASK_WORDS cfg]"
    by (intro map_cong refl) auto
  moreover have "sigprocmask_loop ua cfg how user_set m j msk = Inr (- EFAULT, msk)"
    using jK fault by (subst sigprocmask_loop.simps) simp
  ultimately show ?case
    unfolding ij by simp
next
  case (Suc n)
  then have lt: "i < j" by simp
  have iK: "i < K_SIGACTION_MASK_WORDS cfg" using lt jK by simp
  have rd: "copy_from_user_ulong ua m (user_set + i * sizeof_ulong) = Some (rd i)"
    using Suc.prems(4) lt by simp
  have w: "word_at msk i = Inr (msk ! i)" using iK Suc.prems(3) by (simp add: word_at_def)
  let ?msk1 = "msk[i := apply_how how (msk ! i) (rd i)]"
  have step: "sigprocmask_loop ua cfg how user_set m i msk =
              sigprocmask_loop ua cfg how user_set m (i + 1) ?msk1"
    using iK rd w valid
    by (subst sigprocmask_loop.simps)
       (auto simp: apply_how_def SIG_BLOCK_def SIG_UNBLOCK_def SIG_SETMASK_def)
  have IH: "sigprocmask_loop ua cfg how user_set m (i + 1) ?msk1 =
       Inr (- EFAULT,
            map (\<lambda>k. if i + 1 \<le> k \<and> k < j then apply_how how (?msk1 ! k) (rd k) else ?msk1 ! k)
              [0..<K_SIGACTION_MASK_WORDS cfg])"
    using Suc.IH[of "i + 1" ?msk1] Suc.prems lt by simp
  have "map (\<lambda>k. if i + 1 \<le> k \<and> k < j then apply_how how (?msk1 ! k) (rd k) else ?msk1 ! k)
              [0..<K_SIGACTION_MASK_WORDS cfg] =
        map (\<lambda>k. if i \<le> k \<and> k < j then apply_how how (msk ! k) (rd k) else msk ! k)
              [0..<K_SIGACTION_MASK_WORDS cfg]"
    using lt iK Suc.prems(3) by (auto simp: nth_list_update)
  then show ?case using step IH by simp
qed

text \<open>
  C1, amended. For a valid \<open>how\<close> and a new set that is not \<open>NULL\<close>, once any
  copy-out of the old mask has succeeded: if the reads of the words before word \<open>j\<close>
  succeed and the read of word \<open>j\<close> faults, the call returns \<open>-EFAULT\<close>; the words
  before \<open>j\<close> of the blocked mask have been updated by the mode and the words from
  \<open>j\<close> on are what they were; nothing else of the kernel state changes. When the
  first read faults (\<open>j = 0\<close>) the state is exactly what it was, which is every case
  of a build with one word per mask.
\<close>

theorem sigprocmask_fault_applies_prefix:
  assumes valid: "how = SIG_BLOCK \<or> how = SIG_UNBLOCK \<or> how = SIG_SETMASK"
    and set: "user_set \<noteq> 0"
    and cur: "get_curr_proc s = Some pr"
    and len: "length (sa_mask (procs s pr)) = K_SIGACTION_MASK_WORDS cfg"
    and old: "(if user_oldset \<noteq> 0
               then sigprocmask_copy_oldset ua cfg user_oldset sigsetsize (sa_mask (procs s pr)) m
               else (0, m)) = (0, m1)"
    and jK: "j < K_SIGACTION_MASK_WORDS cfg"
    and reads: "\<forall>k<j. copy_from_user_ulong ua m1 (user_set + k * sizeof_ulong) = Some (rd k)"
    and fault: "copy_from_user_ulong ua m1 (user_set + j * sizeof_ulong) = None"
  shows "sys_rt_sigprocmask ua cfg how user_set user_oldset sigsetsize m s =
           Inr (- EFAULT, m1,
                s\<lparr>procs := (procs s)(pr := (procs s pr)
                   \<lparr>sa_mask :=
                      map (\<lambda>k. if k < j then apply_how how (sa_mask (procs s pr) ! k) (rd k)
                                else sa_mask (procs s pr) ! k)
                        [0..<K_SIGACTION_MASK_WORDS cfg]\<rparr>)\<rparr>) \<and>
         (j = 0 \<longrightarrow> sys_rt_sigprocmask ua cfg how user_set user_oldset sigsetsize m s =
                      Inr (- EFAULT, m1, s))"
proof -
  let ?old = "sa_mask (procs s pr)"
  let ?new = "map (\<lambda>k. if k < j then apply_how how (?old ! k) (rd k) else ?old ! k)
                [0..<K_SIGACTION_MASK_WORDS cfg]"
  have loop: "sigprocmask_loop ua cfg how user_set m1 0 ?old = Inr (- EFAULT, ?new)"
    using sigprocmask_loop_fault[OF valid jK fault, of j 0 ?old rd] len reads by simp
  have main: "sys_rt_sigprocmask ua cfg how user_set user_oldset sigsetsize m s =
           Inr (- EFAULT, m1, s\<lparr>procs := (procs s)(pr := (procs s pr)\<lparr>sa_mask := ?new\<rparr>)\<rparr>)"
    using cur set old loop by (simp add: sys_rt_sigprocmask_def)
  have same: "?new = ?old" if "j = 0"
    using that map_nth[of ?old] len by simp
  have "s\<lparr>procs := (procs s)(pr := (procs s pr)\<lparr>sa_mask := ?old\<rparr>)\<rparr> = s"
    by simp
  with main same show ?thesis by simp
qed

theorem sigprocmask_fault_applies_prefix_witness:
  "get_curr_proc demo_state = Some 2 \<and>
   length (sa_mask (procs demo_state 2)) = K_SIGACTION_MASK_WORDS cfg_two_words \<and>
   copy_from_user_ulong word_access demo_mem (4096 + 0 * sizeof_ulong) = Some 5 \<and>
   copy_from_user_ulong word_access demo_mem (4096 + 1 * sizeof_ulong) = None \<and>
   sys_rt_sigprocmask word_access cfg_two_words SIG_SETMASK 4096 0 16 demo_mem demo_state =
     Inr (- EFAULT, demo_mem,
          demo_state\<lparr>procs := (procs demo_state)(2 := (procs demo_state 2)
             \<lparr>sa_mask :=
                map (\<lambda>k. if k < 1 then apply_how SIG_SETMASK (sa_mask (procs demo_state 2) ! k) 5
                          else sa_mask (procs demo_state 2) ! k)
                  [0..<K_SIGACTION_MASK_WORDS cfg_two_words]\<rparr>)\<rparr>) \<and>
   copy_from_user_ulong word_access demo_mem (12288 + 0 * sizeof_ulong) = None \<and>
   sys_rt_sigprocmask word_access cfg_two_words SIG_BLOCK 12288 0 16 demo_mem demo_state =
     Inr (- EFAULT, demo_mem, demo_state)"
proof -
  have valid: "SIG_SETMASK = SIG_BLOCK \<or> SIG_SETMASK = SIG_UNBLOCK \<or> SIG_SETMASK = SIG_SETMASK"
    by simp
  have valid': "SIG_BLOCK = SIG_BLOCK \<or> SIG_BLOCK = SIG_UNBLOCK \<or> SIG_BLOCK = SIG_SETMASK"
    by simp
  have set: "(4096 :: nat) \<noteq> 0" and set': "(12288 :: nat) \<noteq> 0" by simp_all
  have c: "get_curr_proc demo_state = Some 2"
    by (simp add: get_curr_proc_def demo_state_def runner_def sleeper_def)
  have len: "length (sa_mask (procs demo_state 2)) = K_SIGACTION_MASK_WORDS cfg_two_words"
    by (simp add: demo_state_def proc_of_pid_def cfg_two_words_def)
  have old: "(if (0 :: nat) \<noteq> 0
              then sigprocmask_copy_oldset word_access cfg_two_words 0 16
                     (sa_mask (procs demo_state 2)) demo_mem
              else (0, demo_mem)) = (0, demo_mem)"
    by simp
  have jK: "1 < K_SIGACTION_MASK_WORDS cfg_two_words"
    and jK': "0 < K_SIGACTION_MASK_WORDS cfg_two_words"
    by (simp_all add: cfg_two_words_def)
  have reads: "\<forall>k<1. copy_from_user_ulong word_access demo_mem (4096 + k * sizeof_ulong) =
                 Some ((\<lambda>k. 5) k)"
    by (simp add: word_access_def demo_mem_def)
  have reads': "\<forall>k<0. copy_from_user_ulong word_access demo_mem (12288 + k * sizeof_ulong) =
                 Some ((\<lambda>k. 5) k)"
    by simp
  have fault: "copy_from_user_ulong word_access demo_mem (4096 + 1 * sizeof_ulong) = None"
    by (simp add: word_access_def demo_mem_def sizeof_ulong_def NBITS_def)
  have fault': "copy_from_user_ulong word_access demo_mem (12288 + 0 * sizeof_ulong) = None"
    by (simp add: word_access_def demo_mem_def)
  show ?thesis
    using c len reads fault fault'
      sigprocmask_fault_applies_prefix [OF valid set c len old jK reads fault, THEN conjunct1]
      sigprocmask_fault_applies_prefix [OF valid' set' c len old jK' reads' fault',
        THEN conjunct2]
    by simp
qed

text \<open>
  C10. With \<open>user_set\<close> \<open>NULL\<close> the mode is never looked at: for every \<open>how\<close>
  the call returns with the kernel state, so the blocked mask, unchanged; the return
  code is 0 or \<open>-EFAULT\<close>, never \<open>-EINVAL\<close>, and it is 0 exactly when there is no
  old-set pointer or its copy-out succeeds. So \<open>-EINVAL\<close> needs a new set.
\<close>

theorem sigprocmask_null_set:
  assumes cur: "get_curr_proc s = Some pr"
    and null: "user_set = 0"
  shows "\<exists>rc m1. sys_rt_sigprocmask ua cfg how user_set user_oldset sigsetsize m s =
                    Inr (rc, m1, s) \<and>
                 (rc = 0 \<or> rc = - EFAULT) \<and> rc \<noteq> - EINVAL \<and>
                 (rc = 0 \<longleftrightarrow>
                    user_oldset = 0 \<or>
                    fst (sigprocmask_copy_oldset ua cfg user_oldset sigsetsize
                           (sa_mask (procs s pr)) m) = 0)"
proof (cases "user_oldset = 0")
  case True
  then show ?thesis using cur null by (simp add: sys_rt_sigprocmask_def EINVAL_def)
next
  case False
  obtain rc m1 where co: "sigprocmask_copy_oldset ua cfg user_oldset sigsetsize
                            (sa_mask (procs s pr)) m = (rc, m1)"
    by (cases "sigprocmask_copy_oldset ua cfg user_oldset sigsetsize (sa_mask (procs s pr)) m")
  have rc: "rc = 0 \<or> rc = - EFAULT"
    using co by (auto simp: sigprocmask_copy_oldset_def split: prod.splits if_splits)
  have run: "sys_rt_sigprocmask ua cfg how user_set user_oldset sigsetsize m s = Inr (rc, m1, s)"
    using cur null False co by (simp add: sys_rt_sigprocmask_def)
  have ne: "rc \<noteq> - EINVAL" using rc by (auto simp: EINVAL_def EFAULT_def)
  show ?thesis using run rc ne co False by simp
qed

theorem sigprocmask_null_set_witness:
  "get_curr_proc demo_state = Some 2 \<and>
   (\<exists>rc m1. sys_rt_sigprocmask word_access cfg_two_words 77 0 4096 16 demo_mem demo_state =
               Inr (rc, m1, demo_state) \<and>
      (rc = 0 \<or> rc = - EFAULT) \<and> rc \<noteq> - EINVAL \<and>
      (rc = 0 \<longleftrightarrow>
         (4096 :: nat) = 0 \<or>
         fst (sigprocmask_copy_oldset word_access cfg_two_words 4096 16
                (sa_mask (procs demo_state 2)) demo_mem) = 0))"
proof -
  have c: "get_curr_proc demo_state = Some 2"
    by (simp add: get_curr_proc_def demo_state_def runner_def sleeper_def)
  have n: "(0 :: nat) = 0" by simp
  show ?thesis
    using c sigprocmask_null_set [OF c n, of word_access cfg_two_words 77 4096 16 demo_mem]
    by simp
qed

section \<open>Facts about the context switch and the fault handlers\<close>

lemma log_event_fields [simp]:
  "tasks (log_event e s) = tasks s"
  "procs (log_event e s) = procs s"
  "curr (log_event e s) = curr s"
  "kernel_process_pi (log_event e s) = kernel_process_pi s"
  "disable_preemption_count (log_event e s) = disable_preemption_count s"
  "curr_pdir (log_event e s) = curr_pdir s"
  by (simp_all add: log_event_def)

lemma put_task_fields [simp]:
  "tasks (put_task ti t s) = (tasks s)(ti \<mapsto> t)"
  "procs (put_task ti t s) = procs s"
  "curr (put_task ti t s) = curr s"
  "kernel_process_pi (put_task ti t s) = kernel_process_pi s"
  "disable_preemption_count (put_task ti t s) = disable_preemption_count s"
  "curr_pdir (put_task ti t s) = curr_pdir s"
  by (simp_all add: put_task_def)

lemma enable_preemption_fields [simp]:
  "tasks (enable_preemption s) = tasks s"
  "procs (enable_preemption s) = procs s"
  "curr (enable_preemption s) = curr s"
  "kernel_process_pi (enable_preemption s) = kernel_process_pi s"
  "disable_preemption_count (enable_preemption s) = disable_preemption_count s - 1"
  by (simp_all add: enable_preemption_def)

text \<open>
  C9. Each of the three fault handlers: with no current task, or with a kernel thread
  as the current task, it ends in \<open>panic\<close> with the message that carries the fault
  name; with a user task as the current task it calls \<open>send_signal\<close> with the
  thread id of the current task, the signal \<open>SIGSEGV\<close>, \<open>SIGILL\<close> or \<open>SIGBUS\<close>
  respectively, and the flags \<open>SIG_FL_PROCESS | SIG_FL_FAULT\<close>, and changes nothing
  else.
\<close>

theorem fault_handlers_panic_or_signal:
  "(curr s = None \<or> (\<exists>c t. curr s = Some c \<and> tasks s c = Some t \<and> is_kernel_thread s t)
      \<longrightarrow> handle_generic_fault_int fault_name s = Inl (fault_panic fault_name) \<and>
          handle_inst_illegal_fault_int fault_name s = Inl (fault_panic fault_name) \<and>
          handle_bus_fault_int fault_name s = Inl (fault_panic fault_name)) \<and>
   (\<forall>c t. curr s = Some c \<and> tasks s c = Some t \<and> \<not> is_kernel_thread s t
      \<longrightarrow> handle_generic_fault_int fault_name s =
            Inr (log_event (Send_signal c SIGSEGV {SIG_FL_PROCESS, SIG_FL_FAULT}) s) \<and>
          handle_inst_illegal_fault_int fault_name s =
            Inr (log_event (Send_signal c SIGILL {SIG_FL_PROCESS, SIG_FL_FAULT}) s) \<and>
          handle_bus_fault_int fault_name s =
            Inr (log_event (Send_signal c SIGBUS {SIG_FL_PROCESS, SIG_FL_FAULT}) s))"
  by (auto simp: handle_generic_fault_int_def handle_inst_illegal_fault_int_def
      handle_bus_fault_int_def no_user_task_def handle_fatal_error_def)

theorem fault_handlers_panic_or_signal_witness:
  "curr demo_state = Some 5 \<and> tasks demo_state 5 = Some runner \<and>
   \<not> is_kernel_thread demo_state runner \<and>
   handle_generic_fault_int ''page fault'' demo_state =
     Inr (log_event (Send_signal 5 SIGSEGV {SIG_FL_PROCESS, SIG_FL_FAULT}) demo_state) \<and>
   handle_inst_illegal_fault_int ''illegal instruction'' demo_state =
     Inr (log_event (Send_signal 5 SIGILL {SIG_FL_PROCESS, SIG_FL_FAULT}) demo_state) \<and>
   handle_bus_fault_int ''misaligned'' demo_state =
     Inr (log_event (Send_signal 5 SIGBUS {SIG_FL_PROCESS, SIG_FL_FAULT}) demo_state) \<and>
   curr demo_state_kthread = Some 9 \<and> tasks demo_state_kthread 9 = Some kworker \<and>
   is_kernel_thread demo_state_kthread kworker \<and>
   handle_generic_fault_int ''page fault'' demo_state_kthread =
     Inl (Panic (''FAULT. Error: page fault'' @ [CHR 0x0A]))"
proof -
  have u: "curr demo_state = Some 5 \<and> tasks demo_state 5 = Some runner \<and>
           \<not> is_kernel_thread demo_state runner"
    by (simp add: demo_state_def is_kernel_thread_def runner_def sleeper_def)
  have k: "curr demo_state_kthread = Some 9 \<and> tasks demo_state_kthread 9 = Some kworker \<and>
           is_kernel_thread demo_state_kthread kworker"
    by (simp add: demo_state_kthread_def demo_state_def is_kernel_thread_def kworker_def
        sleeper_def)
  have p: "fault_panic ''page fault'' = Panic (''FAULT. Error: page fault'' @ [CHR 0x0A])"
    by (simp add: fault_panic_def)
  show ?thesis
    using u k
      fault_handlers_panic_or_signal [of demo_state "''page fault''"]
      fault_handlers_panic_or_signal [of demo_state "''illegal instruction''"]
      fault_handlers_panic_or_signal [of demo_state "''misaligned''"]
      fault_handlers_panic_or_signal [of demo_state_kthread "''page fault''"]
    unfolding p by blast
qed




text \<open>
  For a target that is not the current task, the two assertions on the task states
  are made.
\<close>

lemma switch_to_task_other_asserts:
  assumes "curr s = Some c" "tasks s c = Some ct" "tasks s ti = Some t" "ti \<noteq> c"
    and "state ct = TASK_STATE_RUNNING \<or> state t \<noteq> TASK_STATE_RUNNABLE"
  shows "switch_to_task safety_checks cfg ti s = Inl Assert_failed"
  using assms by (auto simp: switch_to_task_def Let_def)

text \<open>
  For the current task, the \<open>process_signals\<close> that \<open>switch_to_task\<close> calls is the
  \<open>process_signals\<close> of \<open>signal.c\<close>.
\<close>

lemma process_signals_of_task_current:
  assumes "curr s = Some ti"
  shows "process_signals_of_task cfg ti s = map_sum id snd (process_signals cfg s)"
  using assms
  by (simp add: process_signals_of_task_def process_signals_def
           split: option.splits sum.splits)








section \<open>Runs of the model\<close>

text \<open>
  Runs on the concrete states: a disposition with a supported flag is installed;
  \<open>SIGTERM\<close> sent to the sleeping task sets its bit 14 and makes the task
  \<open>RUNNABLE\<close>; \<open>SIGKILL\<close> sent to the current task, with the preemption gate
  open, ends in \<open>terminate_process\<close>; in the build with one word per mask, the
  first pending signal of the word \<open>0x100\<close> is 9 and \<open>SIG_BLOCK\<close> of the word 5
  turns the blocked mask \<open>[3]\<close> into \<open>[7]\<close>.
\<close>

lemma sys_rt_sigaction_installs:
  "sys_rt_sigaction word_access cfg_two_words SIGUSR1 4096 0 16
     (demo_mem(4104 \<mapsto> SA_RESTART)) demo_state =
   Inr (0, demo_mem(4104 \<mapsto> SA_RESTART),
        demo_state\<lparr>procs := (procs demo_state)
          (2 := (proc_of_pid 5)\<lparr>sa_handlers := (sa_handlers (proc_of_pid 5))(9 := 5)\<rparr>)\<rparr>)"
  by (simp add: sys_rt_sigaction_def sigaction_int_def IN_RANGE_def SIGUSR1_def SIGKILL_def
      SIGSTOP_def cfg_two_words_def sizeof_ulong_def NBITS_def Let_def word_access_def
      demo_mem_def SA_RESTART_def SA_NOCLDSTOP_def SA_NOCLDWAIT_def SA_SIGINFO_def
      SA_ONSTACK_def get_curr_proc_def disable_preemption_def enable_preemption_def
      demo_state_def runner_def sleeper_def)

lemma send_signal2_wakes_sleeper:
  "map_sum id (\<lambda>(rc, s'). (rc, tasks s' 7)) (send_signal2 cfg_two_words 7 7 SIGTERM True demo_state) =
     Inr (0, Some (sleeper\<lparr>state := TASK_STATE_RUNNABLE, pending_signums := [0x4000, 0]\<rparr>))"
  by (simp add: send_signal2_def Let_def get_task_def disable_preemption_def
      enable_preemption_def is_kernel_thread_def do_send_signal_def IN_RANGE_def
      cfg_two_words_def SIGTERM_def demo_state_def sleeper_def proc_of_pid_def SIG_IGN_def
      SIG_DFL_def signal_default_actions_def SIGHUP_def SIGINT_def SIGQUIT_def SIGILL_def
      SIGABRT_def SIGFPE_def SIGKILL_def SIGSEGV_def SIGPIPE_def SIGALRM_def
      action_terminate_def is_preemption_enabled_def add_pending_sig_def NBITS_def
      signed_divide_int_def signed_modulo_int_def shl1_def word_at_def set_word_at_def
      task_change_state_def put_task_def)

lemma send_signal2_terminates_current:
  "send_signal2 cfg_two_words 5 5 SIGKILL True (demo_state\<lparr>disable_preemption_count := 0\<rparr>) =
     Inl (Process_terminated 0 SIGKILL)"
  by (simp add: send_signal2_def Let_def get_task_def disable_preemption_def
      enable_preemption_def is_kernel_thread_def do_send_signal_def IN_RANGE_def
      cfg_two_words_def demo_state_def sleeper_def runner_def proc_of_pid_def SIG_IGN_def
      SIG_DFL_def signal_default_actions_def SIGHUP_def SIGINT_def SIGQUIT_def SIGILL_def
      SIGABRT_def SIGFPE_def SIGKILL_def SIGSEGV_def SIGPIPE_def SIGALRM_def
      action_terminate_def is_preemption_enabled_def)

lemma first_pending_one_word:
  "get_first_pending_sig cfg_one_word (sleeper\<lparr>pending_signums := [0x100]\<rparr>) = Inr 9"
  by code_simp

lemma sigprocmask_block_one_word:
  "map_sum id (\<lambda>(rc, m, s'). (rc, sa_mask (procs s' 2)))
     (sys_rt_sigprocmask word_access cfg_one_word SIG_BLOCK 4096 0 8 demo_mem
        (demo_state\<lparr>procs := (procs demo_state)(2 := (proc_of_pid 5)\<lparr>sa_mask := [3]\<rparr>)\<rparr>)) =
   Inr (0, [7])"
proof -
  have l1: "sigprocmask_loop word_access cfg_one_word SIG_BLOCK 4096 demo_mem 1 [7] = Inr (0, [7])"
    by (subst sigprocmask_loop.simps) (simp add: cfg_one_word_def)
  have l0: "sigprocmask_loop word_access cfg_one_word SIG_BLOCK 4096 demo_mem 0 [3] = Inr (0, [7])"
    using l1
    by (subst sigprocmask_loop.simps)
       (simp add: cfg_one_word_def word_access_def demo_mem_def word_at_def)
  show ?thesis
    by (simp add: sys_rt_sigprocmask_def get_curr_proc_def demo_state_def runner_def
        sleeper_def l0)
qed

end
